theory Spec2Isabelle
  imports Main
begin

section \<open>The to-do list application: the task store of script.js\<close>

text \<open>
  The class \<open>TodoApp\<close> of script.js keeps a list of task objects, a filter, an edit
  marker and an id counter, and writes the list and the counter to one item of the
  browser's localStorage after every change. This theory embeds that state and the
  methods that read or change it. Rendering, focus handling, the confirmation dialog and
  the feedback banner do not touch the state and are left out.

  Conventions of the embedding:
  \<^item> JavaScript numbers are doubles. The model holds the integer ones as \<open>int\<close>
    and rounds the result of \<open>++\<close> to the nearest double (\<open>to_double\<close>), so that
    counting stops being exact at \<open>2^53 = 9007199254740992\<close> as it does in the code.
    Fractions, NaN and the infinities are outside the model.
  \<^item> JavaScript strings are lists of characters whose code units are below 256.
  \<^item> The clock (\<open>new Date().toISOString()\<close>) and the values of the input elements are
    arguments of the operations that read them.
  \<^item> The 250 ms timers that \<open>deleteTask\<close> starts are a queue of pending
    callbacks in the state; \<open>fireTimer\<close> runs the oldest one. How much time passes
    is not modelled, only the order of the events.
\<close>

subsection \<open>Values of a parsed JSON text\<close>

datatype json =
    JNull
  | JBool bool
  | JNum int
  | JStr string
  | JArr "json list"
  | JObj "(string \<times> json) list"

text \<open>
  \<open>JObj\<close> lists the properties of a parsed object; \<open>get_prop\<close> reads one, and \<open>None\<close> is
  JavaScript's \<open>undefined\<close>. Reading a property of a number, a string, a boolean or an
  array under the names used here (\<open>id\<close>, \<open>text\<close>, \<open>completed\<close>, ...) gives
  \<open>undefined\<close> as well. \<open>truthy\<close> is JavaScript's conversion to a boolean.
  \<open>JNum n\<close> stands for the number \<open>n\<close> that \<open>JSON.parse\<close> returned, which is a
  double: an integer \<open>n\<close> with \<open>to_double n = n\<close> (defined below).
\<close>

fun get_prop :: "json \<Rightarrow> string \<Rightarrow> json option" where
  "get_prop (JObj kvs) k = map_of kvs k"
| "get_prop _ k = None"

fun truthy :: "json \<Rightarrow> bool" where
  "truthy JNull = False"
| "truthy (JBool b) = b"
| "truthy (JNum n) = (n \<noteq> 0)"
| "truthy (JStr s) = (s \<noteq> [])"
| "truthy (JArr xs) = True"
| "truthy (JObj kvs) = True"

fun typeof_string :: "json option \<Rightarrow> bool" where
  "typeof_string (Some (JStr s)) = True"
| "typeof_string _ = False"

fun typeof_number :: "json option \<Rightarrow> bool" where
  "typeof_number (Some (JNum n)) = True"
| "typeof_number _ = False"

subsection \<open>Tasks and the application state\<close>

text \<open>
  A task is the object literal built in \<open>addTask\<close>. The fields \<open>id\<close> and \<open>text\<close> are
  typed, since the filter in \<open>loadTasks\<close> admits only entries with a numeric \<open>id\<close> and a
  string \<open>text\<close>. \<open>completed\<close> is a boolean: the code reads it only through
  \<open>!task.completed\<close> and \<open>task.completed ? ... : ...\<close>. The three remaining fields keep
  the JSON value they hold (\<open>JNull\<close> for \<open>null\<close> and for a missing property).
\<close>

record task =
  task_id :: int
  task_text :: string
  completed :: bool
  createdAt :: json
  completedAt :: json
  deadline :: json

text \<open>
  What \<open>localStorage.getItem('todoApp')\<close> followed by \<open>JSON.parse\<close> can give:
  \<^item> \<open>Missing\<close>: no item, or the empty string (\<open>if (savedData)\<close> is false);
  \<^item> \<open>Garbage\<close>: a text that is not JSON;
  \<^item> \<open>Json DNull\<close>: the text \<open>null\<close>;
  \<^item> \<open>Json DOther\<close>: a number, a string, a boolean or an array, which have neither a
    \<open>tasks\<close> nor a \<open>taskIdCounter\<close> property;
  \<^item> \<open>Json (DObject t c)\<close>: an object, represented by the two properties
    \<open>loadTasks\<close> reads: \<open>tasks\<close> (any JSON value, or \<open>None\<close> when missing) and
    \<open>taskIdCounter\<close> (a number, or \<open>None\<close> when it is missing or falsy).

  A stored counter that is a non-empty string, \<open>true\<close>, an array or an object is
  excluded by this type; \<open>saveTasks\<close> never writes one.
\<close>

datatype document =
    DNull
  | DOther
  | DObject "json option" "int option"

datatype item =
    Missing
  | Garbage
  | Json document

record app =
  tasks :: "task list"
  currentFilter :: string
  editingTaskId :: "int option"
  taskIdCounter :: int
  inputError :: string
  storage :: item
  storageFull :: bool
  timers :: "nat list"

text \<open>
  \<open>inputError\<close> is the text of the error element (\<open>showError\<close>, \<open>clearError\<close>);
  \<open>storage\<close> is the localStorage item; \<open>storageFull\<close> says whether
  \<open>localStorage.setItem\<close> throws; \<open>timers\<close> holds, for each removal that
  \<open>deleteTask\<close> has scheduled and that has not run yet, the index it captured. The
  constructor's state, before \<open>init\<close>:
\<close>

definition constructor :: "item \<Rightarrow> bool \<Rightarrow> app" where
  "constructor it full =
     \<lparr>tasks = [], currentFilter = ''all'', editingTaskId = None, taskIdCounter = 0,
      inputError = [], storage = it, storageFull = full, timers = []\<rparr>"

subsection \<open>Numbers: the increment of a double\<close>

text \<open>
  A double has 53 significant bits: every integer of magnitude up to \<open>2^53\<close> is a
  double, and above that the doubles are \<open>spacing\<close> apart (2 up to \<open>2^54\<close>, then 4,
  and so on). \<open>to_double\<close> rounds an integer to the nearest double, and to the one
  with the even significand when two are equally near. \<open>increment\<close> is what
  \<open>++x\<close> stores and returns for an integer double \<open>x\<close>: the rounded \<open>x + 1\<close>.
\<close>

function spacing :: "int \<Rightarrow> int" where
  "spacing a = (if a < 9007199254740992 then 1 else 2 * spacing (a div 2))"
  by pat_completeness auto
termination
  by (relation "measure nat") auto

declare spacing.simps [simp del]

definition to_double :: "int \<Rightarrow> int" where
  "to_double x =
     (let a = \<bar>x\<bar>; u = spacing a; q = a div u; r = a mod u;
          m = (if 2 * r < u then q else if u < 2 * r then q + 1
               else if even q then q else q + 1)
      in sgn x * (m * u))"

definition increment :: "int \<Rightarrow> int" where
  "increment n = to_double (n + 1)"

subsection \<open>String helpers: trim and toLowerCase\<close>

definition isWhiteSpace :: "char \<Rightarrow> bool" where
  "isWhiteSpace c = (of_char c \<in> {9, 10, 11, 12, 13, 32, 160 :: nat})"

definition trim :: "string \<Rightarrow> string" where
  "trim s = rev (dropWhile isWhiteSpace (rev (dropWhile isWhiteSpace s)))"

definition lowerChar :: "char \<Rightarrow> char" where
  "lowerChar c =
     (let n = (of_char c :: nat)
      in if (65 \<le> n \<and> n \<le> 90) \<or> (192 \<le> n \<and> n \<le> 222 \<and> n \<noteq> 215)
         then char_of (n + 32) else c)"

definition toLowerCase :: "string \<Rightarrow> string" where
  "toLowerCase s = map lowerChar s"

subsection \<open>Error display and persistence\<close>

definition showError :: "string \<Rightarrow> app \<Rightarrow> app" where
  "showError message s = s\<lparr>inputError := message\<rparr>"

definition clearError :: "app \<Rightarrow> app" where
  "clearError s = s\<lparr>inputError := []\<rparr>"

text \<open>
  \<open>JSON.stringify\<close> of a task writes its six properties; \<open>serialize\<close> is the document
  that \<open>JSON.parse\<close> reads back from the text \<open>saveTasks\<close> stores. The property
  \<open>lastSaved\<close> is written too, and nothing reads it.
\<close>

definition json_of_task :: "task \<Rightarrow> json" where
  "json_of_task t =
     JObj [(''id'', JNum (task_id t)), (''text'', JStr (task_text t)),
           (''completed'', JBool (completed t)), (''createdAt'', createdAt t),
           (''completedAt'', completedAt t), (''deadline'', deadline t)]"

definition serialize :: "app \<Rightarrow> document" where
  "serialize s = DObject (Some (JArr (map json_of_task (tasks s)))) (Some (taskIdCounter s))"

definition saveTasks :: "app \<Rightarrow> app" where
  "saveTasks s =
     (if storageFull s then showError ''Failed to save tasks. Storage might be full.'' s
      else s\<lparr>storage := Json (serialize s)\<rparr>)"

subsection \<open>Loading\<close>

text \<open>
  \<open>JSON.parse\<close> throws a SyntaxError on a text that is not JSON; reading \<open>data.tasks\<close>
  of \<open>null\<close> and calling \<open>.filter\<close> on a value that is not an array throw a TypeError.
  \<open>loadTasks_try\<close> is the body of the \<open>try\<close> block, \<open>loadTasks\<close> adds the \<open>catch\<close>.
\<close>

datatype exn = SyntaxError | TypeError

definition valid_entry :: "json \<Rightarrow> bool" where
  "valid_entry e =
     (truthy e \<and> typeof_string (get_prop e ''text'') \<and> typeof_number (get_prop e ''id''))"

definition or_null :: "json option \<Rightarrow> json" where
  "or_null v = (case v of None \<Rightarrow> JNull | Some w \<Rightarrow> w)"

definition task_of_entry :: "json \<Rightarrow> task" where
  "task_of_entry e =
     \<lparr>task_id = (case get_prop e ''id'' of Some (JNum n) \<Rightarrow> n | _ \<Rightarrow> 0),
      task_text = (case get_prop e ''text'' of Some (JStr x) \<Rightarrow> x | _ \<Rightarrow> []),
      completed = (case get_prop e ''completed'' of None \<Rightarrow> False | Some v \<Rightarrow> truthy v),
      createdAt = or_null (get_prop e ''createdAt''),
      completedAt = or_null (get_prop e ''completedAt''),
      deadline = or_null (get_prop e ''deadline'')\<rparr>"

fun tasks_or_empty :: "json option \<Rightarrow> exn + json list" where
  "tasks_or_empty None = Inr []"
| "tasks_or_empty (Some (JArr es)) = Inr es"
| "tasks_or_empty (Some v) = (if truthy v then Inl TypeError else Inr [])"

definition counter_or_zero :: "int option \<Rightarrow> int" where
  "counter_or_zero c = (case c of None \<Rightarrow> 0 | Some n \<Rightarrow> n)"

definition loadTasks_try :: "app \<Rightarrow> exn + app" where
  "loadTasks_try s =
     (case storage s of
        Missing \<Rightarrow> Inr s
      | Garbage \<Rightarrow> Inl SyntaxError
      | Json DNull \<Rightarrow> Inl TypeError
      | Json DOther \<Rightarrow> Inr (s\<lparr>tasks := [], taskIdCounter := 0\<rparr>)
      | Json (DObject t c) \<Rightarrow>
          (case tasks_or_empty t of
             Inl e \<Rightarrow> Inl e
           | Inr es \<Rightarrow>
               Inr (s\<lparr>tasks := map task_of_entry (filter valid_entry es),
                      taskIdCounter := counter_or_zero c\<rparr>)))"

definition loadTasks :: "app \<Rightarrow> app" where
  "loadTasks s =
     (case loadTasks_try s of
        Inl e \<Rightarrow> s\<lparr>tasks := [], taskIdCounter := 0\<rparr>
      | Inr s' \<Rightarrow> s')"

subsection \<open>Creating, toggling, deleting and editing tasks\<close>

definition validateTaskInput :: "string \<Rightarrow> app \<Rightarrow> bool \<times> app" where
  "validateTaskInput txt s =
     (if txt = [] then (False, showError ''Please enter a task description.'' s)
      else if length txt > 100
        then (False, showError ''Task description must be 100 characters or less.'' s)
      else if list_ex (\<lambda>t. toLowerCase (task_text t) = toLowerCase txt) (tasks s)
        then (False, showError ''This task already exists.'' s)
      else (True, s))"

text \<open>
  \<open>addTask\<close> reads the two input elements (\<open>inputValue\<close>, \<open>deadlineValue\<close>) and the
  clock (\<open>now\<close>). \<open>deadline || null\<close> turns the empty string into \<open>null\<close>.
\<close>

definition addTask :: "string \<Rightarrow> string \<Rightarrow> string \<Rightarrow> app \<Rightarrow> app" where
  "addTask inputValue deadlineValue now s =
     (let txt = trim inputValue in
      case validateTaskInput txt s of
        (False, s') \<Rightarrow> s'
      | (True, s') \<Rightarrow>
          (let n = increment (taskIdCounter s');
               t = \<lparr>task_id = n, task_text = txt, completed = False,
                    createdAt = JStr now, completedAt = JNull,
                    deadline = (if deadlineValue = [] then JNull else JStr deadlineValue)\<rparr>
           in saveTasks (clearError (s'\<lparr>taskIdCounter := n, tasks := tasks s' @ [t]\<rparr>))))"

text \<open>
  \<open>find\<close> and \<open>findIndex\<close> stop at the first task with the id; \<open>update_first\<close> is the
  assignment to the fields of the object \<open>find\<close> returned, which stays at its place in
  the array.
\<close>

fun findIndex :: "('a \<Rightarrow> bool) \<Rightarrow> 'a list \<Rightarrow> nat option" where
  "findIndex P [] = None"
| "findIndex P (x # xs) =
     (if P x then Some 0 else (case findIndex P xs of None \<Rightarrow> None | Some i \<Rightarrow> Some (Suc i)))"

fun update_first :: "('a \<Rightarrow> bool) \<Rightarrow> ('a \<Rightarrow> 'a) \<Rightarrow> 'a list \<Rightarrow> 'a list" where
  "update_first P f [] = []"
| "update_first P f (x # xs) = (if P x then f x # xs else x # update_first P f xs)"

definition splice1 :: "nat \<Rightarrow> 'a list \<Rightarrow> 'a list" where
  "splice1 i xs = take i xs @ drop (Suc i) xs"

definition toggle :: "string \<Rightarrow> task \<Rightarrow> task" where
  "toggle now t =
     t\<lparr>completed := \<not> completed t,
       completedAt := (if \<not> completed t then JStr now else JNull)\<rparr>"

definition toggleTask :: "int \<Rightarrow> string \<Rightarrow> app \<Rightarrow> app" where
  "toggleTask taskId now s =
     (case find (\<lambda>t. task_id t = taskId) (tasks s) of
        None \<Rightarrow> s
      | Some t \<Rightarrow>
          saveTasks (s\<lparr>tasks := update_first (\<lambda>t. task_id t = taskId) (toggle now) (tasks s)\<rparr>))"

text \<open>
  \<open>deleteTask\<close> looks the element of the task up in the page (\<open>taskElement\<close> says
  whether there is one). Without an element it removes the task at once; with one it
  starts a timer whose callback does the same removal later, at the index found now.
  \<open>removeAt\<close> is that removal: \<open>splice(taskIndex, 1)\<close>, which removes nothing when
  the index is past the end, then \<open>saveTasks\<close>. Timers of equal delay run in the order
  they were started.
\<close>

definition removeAt :: "nat \<Rightarrow> app \<Rightarrow> app" where
  "removeAt taskIndex s = saveTasks (s\<lparr>tasks := splice1 taskIndex (tasks s)\<rparr>)"

definition deleteTask :: "int \<Rightarrow> bool \<Rightarrow> app \<Rightarrow> app" where
  "deleteTask taskId taskElement s =
     (case findIndex (\<lambda>t. task_id t = taskId) (tasks s) of
        None \<Rightarrow> s
      | Some taskIndex \<Rightarrow>
          (if taskElement then s\<lparr>timers := timers s @ [taskIndex]\<rparr>
           else removeAt taskIndex s))"

definition fireTimer :: "app \<Rightarrow> app" where
  "fireTimer s =
     (case timers s of
        [] \<Rightarrow> s
      | taskIndex # rest \<Rightarrow> removeAt taskIndex (s\<lparr>timers := rest\<rparr>))"

definition cancelEdit :: "app \<Rightarrow> app" where
  "cancelEdit s = clearError (s\<lparr>editingTaskId := None\<rparr>)"

text \<open>\<open>if (this.editingTaskId)\<close> is false for \<open>null\<close> and for the id 0.\<close>

definition editTask :: "int \<Rightarrow> app \<Rightarrow> app" where
  "editTask taskId s =
     (let s' = (if editingTaskId s \<noteq> None \<and> editingTaskId s \<noteq> Some 0
                then cancelEdit s else s)
      in s'\<lparr>editingTaskId := Some taskId\<rparr>)"

text \<open>
  \<open>saveEdit\<close> looks the edit field of the task up in the page: \<open>editInput\<close> is its value,
  or \<open>None\<close> when the page has no such field.
\<close>

definition saveEdit :: "int \<Rightarrow> string option \<Rightarrow> app \<Rightarrow> app" where
  "saveEdit taskId editInput s =
     (case editInput of
        None \<Rightarrow> s
      | Some v \<Rightarrow>
          (let newText = trim v in
           if newText = [] then showError ''Task description cannot be empty.'' s
           else if length newText > 100
             then showError ''Task description must be 100 characters or less.'' s
           else if list_ex (\<lambda>t. task_id t \<noteq> taskId \<and>
                                 toLowerCase (task_text t) = toLowerCase newText) (tasks s)
             then showError ''This task already exists.'' s
           else (case find (\<lambda>t. task_id t = taskId) (tasks s) of
                   None \<Rightarrow> s
                 | Some t \<Rightarrow>
                     saveTasks (clearError
                       (s\<lparr>tasks := update_first (\<lambda>t. task_id t = taskId)
                                      (\<lambda>t. t\<lparr>task_text := newText\<rparr>) (tasks s),
                          editingTaskId := None\<rparr>)))))"

subsection \<open>Filter and bulk operations\<close>

definition setFilter :: "string \<Rightarrow> app \<Rightarrow> app" where
  "setFilter f s = s\<lparr>currentFilter := f\<rparr>"

definition getFilteredTasks :: "app \<Rightarrow> task list" where
  "getFilteredTasks s =
     (if currentFilter s = ''active'' then filter (\<lambda>t. \<not> completed t) (tasks s)
      else if currentFilter s = ''completed'' then filter (\<lambda>t. completed t) (tasks s)
      else tasks s)"

definition clearCompleted :: "app \<Rightarrow> app" where
  "clearCompleted s = saveTasks (s\<lparr>tasks := filter (\<lambda>t. \<not> completed t) (tasks s)\<rparr>)"

definition clearAll :: "app \<Rightarrow> app" where
  "clearAll s = saveTasks (s\<lparr>tasks := [], editingTaskId := None\<rparr>)"

subsection \<open>Sequences of operations\<close>

text \<open>
  One constructor for each method a user of the page can trigger, with the inputs the
  method reads, \<open>FireTimer\<close> for a pending removal running, and \<open>StorageFull\<close> for
  the browser's storage filling up or being freed.
  \<open>run\<close> applies a sequence from left to right. \<open>issued\<close> collects the ids of the tasks
  that appear in the list during a run; \<open>addTask\<close> is the only method that builds a task.
\<close>

datatype op =
    AddTask string string string
  | ToggleTask int string
  | DeleteTask int bool
  | FireTimer
  | EditTask int
  | SaveEdit int "string option"
  | CancelEdit
  | SetFilter string
  | ClearCompleted
  | ClearAll
  | StorageFull bool

fun step :: "op \<Rightarrow> app \<Rightarrow> app" where
  "step (AddTask inputValue deadlineValue now) s = addTask inputValue deadlineValue now s"
| "step (ToggleTask taskId now) s = toggleTask taskId now s"
| "step (DeleteTask taskId taskElement) s = deleteTask taskId taskElement s"
| "step FireTimer s = fireTimer s"
| "step (EditTask taskId) s = editTask taskId s"
| "step (SaveEdit taskId editInput) s = saveEdit taskId editInput s"
| "step CancelEdit s = cancelEdit s"
| "step (SetFilter f) s = setFilter f s"
| "step ClearCompleted s = clearCompleted s"
| "step ClearAll s = clearAll s"
| "step (StorageFull b) s = s\<lparr>storageFull := b\<rparr>"

fun run :: "op list \<Rightarrow> app \<Rightarrow> app" where
  "run [] s = s"
| "run (x # xs) s = run xs (step x s)"

fun new_ids :: "op \<Rightarrow> app \<Rightarrow> int list" where
  "new_ids (AddTask inputValue deadlineValue now) s =
     map task_id (drop (length (tasks s)) (tasks (addTask inputValue deadlineValue now s)))"
| "new_ids _ s = []"

fun issued :: "op list \<Rightarrow> app \<Rightarrow> int list" where
  "issued [] s = []"
| "issued (x # xs) s = new_ids x s @ issued xs (step x s)"

text \<open>
  \<open>seen\<close> collects the ids of all tasks the store holds at the start of a run and
  after each of its steps.
\<close>

fun seen :: "op list \<Rightarrow> app \<Rightarrow> int list" where
  "seen [] s = map task_id (tasks s)"
| "seen (x # xs) s = map task_id (tasks s) @ seen xs (step x s)"

text \<open>The store invariant that \<open>addTask\<close> relies on: no task id is above the counter.\<close>

definition ids_bounded :: "app \<Rightarrow> bool" where
  "ids_bounded s = list_all (\<lambda>t. task_id t \<le> taskIdCounter s) (tasks s)"

subsection \<open>Example states\<close>

text \<open>
  A stored item whose counter (0) is below the id of its only task (1), the state the
  application starts in from it, and that state after one more task was added.
\<close>

definition stale_item :: item where
  "stale_item =
     Json (DObject (Some (JArr [JObj [(''id'', JNum 1), (''text'', JStr ''a'')]])) (Some 0))"

definition stale_app :: app where
  "stale_app = loadTasks (constructor stale_item False)"

definition collided_app :: app where
  "collided_app = addTask ''b'' [] ''2024-01-01T00:00:00.000Z'' stale_app"

text \<open>A store with one task, created and then marked as completed.\<close>

definition done_app :: app where
  "done_app =
     toggleTask 1 ''2024-01-02T00:00:00.000Z''
       (addTask ''a'' [] ''2024-01-01T00:00:00.000Z'' (constructor Missing False))"

text \<open>
  A stored item with an entry that is not an object, an entry without an id, and three
  entries the filter admits: two with the same text in different case and one with an
  empty text.
\<close>

definition mixed_entries :: "json list" where
  "mixed_entries =
     [JNull,
      JObj [(''text'', JStr ''no id'')],
      JObj [(''id'', JNum 1), (''text'', JStr ''Buy milk'')],
      JObj [(''id'', JNum 2), (''text'', JStr ''buy milk''), (''completed'', JBool True)],
      JObj [(''id'', JNum 3), (''text'', JStr [])]]"

definition mixed_item :: item where
  "mixed_item = Json (DObject (Some (JArr mixed_entries)) (Some 3))"

text \<open>A store with a completed task (id 1) and an open one (id 2).\<close>

definition pair_app :: app where
  "pair_app = addTask ''b'' [] ''2024-01-03T00:00:00.000Z'' done_app"

text \<open>
  A stored item with no task and the counter \<open>2^53\<close>, and the store started from it
  after one task was added.
\<close>

definition big_item :: item where
  "big_item = Json (DObject None (Some 9007199254740992))"

definition big_app :: app where
  "big_app = addTask ''a'' [] ''2024-01-01T00:00:00.000Z'' (loadTasks (constructor big_item False))"

text \<open>A user session: two tasks created, one completed, one deleted, the completed ones cleared.\<close>

definition session :: "op list" where
  "session =
     [AddTask ''a'' [] ''2024-01-01T00:00:00.000Z'',
      AddTask '' b '' ''2024-02-01T10:00'' ''2024-01-01T00:00:01.000Z'',
      ToggleTask 1 ''2024-01-01T00:00:02.000Z'',
      DeleteTask 2 True,
      FireTimer,
      ClearCompleted]"

text \<open>A session that ends with two tasks in the store, one of them being edited.\<close>

definition busy_session :: "op list" where
  "busy_session =
     [AddTask ''a'' [] ''2024-01-01T00:00:00.000Z'',
      AddTask ''b'' [] ''2024-01-01T00:00:01.000Z'',
      AddTask ''c'' [] ''2024-01-01T00:00:02.000Z'',
      DeleteTask 1 False,
      EditTask 3]"

section \<open>Basic facts\<close>

subsection \<open>What saving and the small operations leave alone\<close>

lemma saveTasks_fields:
  "tasks (saveTasks s) = tasks s"
  "taskIdCounter (saveTasks s) = taskIdCounter s"
  "editingTaskId (saveTasks s) = editingTaskId s"
  "currentFilter (saveTasks s) = currentFilter s"
  "storageFull (saveTasks s) = storageFull s"
  by (simp_all add: saveTasks_def showError_def)

lemma other_fields:
  "taskIdCounter (editTask k s) = taskIdCounter s" "tasks (editTask k s) = tasks s"
  "taskIdCounter (cancelEdit s) = taskIdCounter s" "tasks (cancelEdit s) = tasks s"
  "taskIdCounter (setFilter f s) = taskIdCounter s" "tasks (setFilter f s) = tasks s"
  "taskIdCounter (clearCompleted s) = taskIdCounter s"
  "tasks (clearCompleted s) = filter (\<lambda>t. \<not> completed t) (tasks s)"
  "taskIdCounter (clearAll s) = taskIdCounter s" "tasks (clearAll s) = []"
  "editingTaskId (clearAll s) = None"
  by (simp_all add: editTask_def cancelEdit_def setFilter_def clearCompleted_def clearAll_def
      clearError_def saveTasks_fields Let_def)

subsection \<open>Searching and updating the task list\<close>

lemma findIndex_None_iff: "findIndex P xs = None \<longleftrightarrow> \<not> list_ex P xs"
  by (induction xs) (auto split: option.splits)

lemma findIndex_Some:
  "findIndex P xs = Some i \<Longrightarrow> i < length xs \<and> P (xs ! i) \<and> \<not> list_ex P (take i xs)"
proof (induction xs arbitrary: i)
  case Nil
  then show ?case by simp
next
  case (Cons x xs)
  show ?case
  proof (cases "P x")
    case True
    with Cons.prems show ?thesis by simp
  next
    case False
    with Cons.prems obtain j where j: "findIndex P xs = Some j" "i = Suc j"
      by (auto split: option.splits)
    from Cons.IH [OF j(1)] False j(2) show ?thesis by simp
  qed
qed

lemma splice1_filter:
  assumes "findIndex (\<lambda>t. f t = a) xs = Some i" and "distinct (map f xs)"
  shows "splice1 i xs = filter (\<lambda>t. f t \<noteq> a) xs"
  using assms
proof (induction xs arbitrary: i)
  case Nil
  then show ?case by simp
next
  case (Cons x xs)
  show ?case
  proof (cases "f x = a")
    case True
    with Cons.prems have "i = 0" by simp
    moreover from True Cons.prems(2) have "a \<notin> f ` set xs" by simp
    then have "\<forall>y\<in>set xs. f y \<noteq> a" by force
    then have "filter (\<lambda>t. f t \<noteq> a) xs = xs" by (simp add: filter_id_conv)
    ultimately show ?thesis using True by (simp add: splice1_def)
  next
    case False
    with Cons.prems obtain j where j: "findIndex (\<lambda>t. f t = a) xs = Some j" "i = Suc j"
      by (auto split: option.splits)
    from Cons.prems(2) have "distinct (map f xs)" by simp
    from Cons.IH [OF j(1) this] False j(2) show ?thesis by (simp add: splice1_def)
  qed
qed

lemma findIndex_filter_out: "findIndex (\<lambda>t. f t = a) (filter (\<lambda>t. f t \<noteq> a) xs) = None"
  by (simp add: findIndex_None_iff list_ex_iff)

lemma find_update_first:
  "(\<And>x. P (f x) = P x) \<Longrightarrow> find P (update_first P f xs) = map_option f (find P xs)"
  by (induction xs) simp_all

lemma update_first_twice:
  "(\<And>x. P (f x) = P x) \<Longrightarrow>
   update_first P g (update_first P f xs) = update_first P (\<lambda>x. g (f x)) xs"
  by (induction xs) simp_all

lemma map_update_first:
  "(\<And>x. g (f x) = g x) \<Longrightarrow> map g (update_first P f xs) = map g xs"
  by (induction xs) simp_all

lemma set_update_first:
  "x \<in> set (update_first P f xs) \<Longrightarrow> x \<in> set xs \<or> (\<exists>y\<in>set xs. P y \<and> x = f y)"
  by (induction xs) (auto split: if_splits)

lemma toggle_toggle:
  "toggle n2 (toggle n1 t) = t\<lparr>completedAt := (if completed t then JStr n2 else JNull)\<rparr>"
  by (simp add: toggle_def)

subsection \<open>The entries the load filter admits\<close>

lemma valid_entry_types:
  "valid_entry e \<longleftrightarrow> typeof_string (get_prop e ''text'') \<and> typeof_number (get_prop e ''id'')"
  by (cases e) (simp_all add: valid_entry_def)

lemma typeof_string_iff: "typeof_string v \<longleftrightarrow> (\<exists>x. v = Some (JStr x))"
  by (cases v rule: typeof_string.cases) simp_all

lemma typeof_number_iff: "typeof_number v \<longleftrightarrow> (\<exists>n. v = Some (JNum n))"
  by (cases v rule: typeof_number.cases) simp_all

lemma valid_entry_iff:
  "valid_entry e \<longleftrightarrow>
     (\<exists>x n. get_prop e ''text'' = Some (JStr x) \<and> get_prop e ''id'' = Some (JNum n))"
  by (simp add: valid_entry_types typeof_string_iff typeof_number_iff)

lemma loadTasks_array:
  assumes "storage s = Json (DObject t c)" and "tasks_or_empty t = Inr es"
  shows "loadTasks s = s\<lparr>tasks := map task_of_entry (filter valid_entry es),
                         taskIdCounter := counter_or_zero c\<rparr>"
  using assms by (simp add: loadTasks_def loadTasks_try_def)

lemma task_of_entry_json_of_task: "task_of_entry (json_of_task t) = t"
  by (simp add: task_of_entry_def json_of_task_def or_null_def)

lemma valid_entry_json_of_task: "valid_entry (json_of_task t)"
  by (simp add: valid_entry_def json_of_task_def)

lemma roundtrip_tasks: "map task_of_entry (filter valid_entry (map json_of_task ts)) = ts"
  by (induction ts) (simp_all add: task_of_entry_json_of_task valid_entry_json_of_task)

subsection \<open>Where the increment is exact\<close>

lemma to_double_small: "\<bar>x\<bar> < 9007199254740992 \<Longrightarrow> to_double x = x"
proof -
  assume "\<bar>x\<bar> < 9007199254740992"
  then have "spacing \<bar>x\<bar> = 1" by (subst spacing.simps) simp
  then show ?thesis by (simp add: to_double_def Let_def sgn_if)
qed

lemma to_double_2_53: "to_double 9007199254740992 = 9007199254740992"
  by code_simp

lemma increment_safe:
  assumes "- 9007199254740992 \<le> n" and "n < 9007199254740992"
  shows "increment n = n + 1"
proof (cases "n + 1 = 9007199254740992")
  case True
  then show ?thesis by (simp add: increment_def to_double_2_53)
next
  case False
  with assms have "\<bar>n + 1\<bar> < 9007199254740992" by linarith
  then show ?thesis by (simp add: increment_def to_double_small)
qed

subsection \<open>The two outcomes of addTask\<close>

lemma addTask_rejected:
  "trim i = [] \<Longrightarrow> addTask i d n s = showError ''Please enter a task description.'' s"
  "trim i \<noteq> [] \<Longrightarrow> length (trim i) > 100 \<Longrightarrow>
     addTask i d n s = showError ''Task description must be 100 characters or less.'' s"
  "trim i \<noteq> [] \<Longrightarrow> length (trim i) \<le> 100 \<Longrightarrow>
   list_ex (\<lambda>t. toLowerCase (task_text t) = toLowerCase (trim i)) (tasks s) \<Longrightarrow>
     addTask i d n s = showError ''This task already exists.'' s"
  by (simp_all add: addTask_def validateTaskInput_def)

lemma addTask_accepted:
  assumes "trim i \<noteq> []" and "length (trim i) \<le> 100"
    and "\<not> list_ex (\<lambda>t. toLowerCase (task_text t) = toLowerCase (trim i)) (tasks s)"
  shows "tasks (addTask i d n s) =
           tasks s @ [\<lparr>task_id = increment (taskIdCounter s), task_text = trim i,
                       completed = False, createdAt = JStr n, completedAt = JNull,
                       deadline = (if d = [] then JNull else JStr d)\<rparr>]"
    and "taskIdCounter (addTask i d n s) = increment (taskIdCounter s)"
  using assms
  by (simp_all add: addTask_def validateTaskInput_def saveTasks_fields clearError_def Let_def)

lemma addTask_cases:
  "(tasks (addTask i d n s) = tasks s \<and> taskIdCounter (addTask i d n s) = taskIdCounter s) \<or>
   (\<exists>t. tasks (addTask i d n s) = tasks s @ [t] \<and>
        task_id t = increment (taskIdCounter s) \<and>
        taskIdCounter (addTask i d n s) = increment (taskIdCounter s))"
  by (simp add: addTask_def validateTaskInput_def showError_def clearError_def
      saveTasks_fields Let_def)

subsection \<open>The counter never decreases, and ids stay below it\<close>

lemma toggleTask_fields:
  "taskIdCounter (toggleTask k n s) = taskIdCounter s"
  "map task_id (tasks (toggleTask k n s)) = map task_id (tasks s)"
  by (simp_all add: toggleTask_def saveTasks_fields map_update_first toggle_def
      split: option.splits)

lemma removeAt_fields:
  "taskIdCounter (removeAt j s) = taskIdCounter s"
  "set (tasks (removeAt j s)) \<subseteq> set (tasks s)"
  by (auto simp: removeAt_def saveTasks_fields splice1_def dest: in_set_takeD in_set_dropD)

lemma deleteTask_fields:
  "taskIdCounter (deleteTask k e s) = taskIdCounter s"
  "set (tasks (deleteTask k e s)) \<subseteq> set (tasks s)"
  using removeAt_fields [of _ s] by (simp_all add: deleteTask_def split: option.splits)

lemma fireTimer_fields:
  "taskIdCounter (fireTimer s) = taskIdCounter s"
  "set (tasks (fireTimer s)) \<subseteq> set (tasks s)"
proof -
  show "taskIdCounter (fireTimer s) = taskIdCounter s"
    by (simp add: fireTimer_def removeAt_fields split: list.splits)
  show "set (tasks (fireTimer s)) \<subseteq> set (tasks s)"
  proof (cases "timers s")
    case Nil
    then show ?thesis by (simp add: fireTimer_def)
  next
    case (Cons j rest)
    with removeAt_fields(2) [of j "s\<lparr>timers := rest\<rparr>"] show ?thesis
      by (simp add: fireTimer_def)
  qed
qed

lemma saveEdit_fields:
  "taskIdCounter (saveEdit k v s) = taskIdCounter s"
  "map task_id (tasks (saveEdit k v s)) = map task_id (tasks s)"
  by (simp_all add: saveEdit_def saveTasks_fields showError_def clearError_def Let_def
      map_update_first split: option.splits)

lemma step_counter:
  assumes "- 9007199254740992 \<le> taskIdCounter s" and "taskIdCounter s < 9007199254740992"
  shows "taskIdCounter s \<le> taskIdCounter (step x s) \<and>
         taskIdCounter (step x s) \<le> taskIdCounter s + 1"
proof (cases x)
  case (AddTask i d n)
  with addTask_cases [of i d n s] increment_safe [OF assms] show ?thesis by auto
qed (simp_all add: toggleTask_fields deleteTask_fields fireTimer_fields saveEdit_fields
    other_fields)

lemma new_ids_counter:
  assumes "j \<in> set (new_ids x s)"
    and "- 9007199254740992 \<le> taskIdCounter s" and "taskIdCounter s < 9007199254740992"
  shows "taskIdCounter s < j \<and> j \<le> taskIdCounter (step x s)"
proof (cases x)
  case (AddTask i d n)
  with assms(1) addTask_cases [of i d n s] increment_safe [OF assms(2,3)] show ?thesis
    by auto
qed (use assms(1) in simp_all)

lemma ids_bounded_fresh:
  "ids_bounded s \<Longrightarrow> taskIdCounter s + 1 \<notin> set (map task_id (tasks s))"
  by (auto simp: ids_bounded_def list_all_iff)

lemma ids_bounded_constructor: "ids_bounded (constructor it full)"
  by (simp add: ids_bounded_def constructor_def)

lemma ids_bounded_map:
  assumes "map task_id (tasks s') = map task_id (tasks s)"
    and "taskIdCounter s' = taskIdCounter s" and "ids_bounded s"
  shows "ids_bounded s'"
proof -
  have "ids_bounded s' = list_all (\<lambda>k. k \<le> taskIdCounter s') (map task_id (tasks s'))"
    by (simp add: ids_bounded_def list_all_iff)
  also have "\<dots> = list_all (\<lambda>k. k \<le> taskIdCounter s) (map task_id (tasks s))"
    by (simp add: assms(1,2))
  also have "\<dots> = ids_bounded s" by (simp add: ids_bounded_def list_all_iff)
  finally show ?thesis using assms(3) by simp
qed

lemma ids_bounded_subset:
  "set (tasks s') \<subseteq> set (tasks s) \<Longrightarrow> taskIdCounter s' = taskIdCounter s \<Longrightarrow>
   ids_bounded s \<Longrightarrow> ids_bounded s'"
  by (auto simp: ids_bounded_def list_all_iff)

lemma ids_bounded_step:
  assumes "ids_bounded s"
    and "- 9007199254740992 \<le> taskIdCounter s" and "taskIdCounter s < 9007199254740992"
  shows "ids_bounded (step x s)"
proof (cases x)
  case (AddTask i d n)
  with assms(1) addTask_cases [of i d n s] increment_safe [OF assms(2,3)] show ?thesis
    by (fastforce simp: ids_bounded_def list_all_iff)
next
  case (ToggleTask k n)
  with assms(1) show ?thesis by (simp add: ids_bounded_map [of _ s] toggleTask_fields)
next
  case (DeleteTask k e)
  with assms(1) show ?thesis by (simp add: ids_bounded_subset [of _ s] deleteTask_fields)
next
  case FireTimer
  with assms(1) show ?thesis by (simp add: ids_bounded_subset [of _ s] fireTimer_fields)
next
  case (SaveEdit k v)
  with assms(1) show ?thesis by (simp add: ids_bounded_map [of _ s] saveEdit_fields)
next
  case ClearCompleted
  with assms(1) show ?thesis by (simp add: ids_bounded_subset [of _ s] other_fields)
qed (use assms(1) in \<open>simp_all add: ids_bounded_def other_fields\<close>)

text \<open>
  A run of \<open>length xs\<close> operations that starts with the counter at least \<open>-2^53\<close>
  and more than \<open>length xs\<close> below \<open>2^53\<close> never reaches the point where the
  increment stops being exact: the counter only grows, by at most one in each step, every
  id given out is above the counter at the start and at most the counter at the end, and
  a store whose ids were at most its counter keeps that property, so that every id it
  ever held is at most the counter at the end.
\<close>

lemma run_counter:
  assumes "- 9007199254740992 \<le> taskIdCounter s"
    and "taskIdCounter s + int (length xs) < 9007199254740992"
  shows "taskIdCounter s \<le> taskIdCounter (run xs s) \<and>
         taskIdCounter (run xs s) \<le> taskIdCounter s + int (length xs) \<and>
         (\<forall>j\<in>set (issued xs s). taskIdCounter s < j \<and> j \<le> taskIdCounter (run xs s)) \<and>
         (ids_bounded s \<longrightarrow>
            ids_bounded (run xs s) \<and> (\<forall>j\<in>set (seen xs s). j \<le> taskIdCounter (run xs s)))"
  using assms
proof (induction xs arbitrary: s)
  case Nil
  then show ?case by (auto simp: ids_bounded_def list_all_iff)
next
  case (Cons x xs)
  let ?s = "step x s"
  from Cons.prems have lo: "- 9007199254740992 \<le> taskIdCounter s"
    and hi: "taskIdCounter s < 9007199254740992"
    by simp_all
  from step_counter [OF lo hi, of x]
  have st: "taskIdCounter s \<le> taskIdCounter ?s" "taskIdCounter ?s \<le> taskIdCounter s + 1"
    by simp_all
  with Cons.prems have lo': "- 9007199254740992 \<le> taskIdCounter ?s"
    and hi': "taskIdCounter ?s + int (length xs) < 9007199254740992"
    by simp_all
  note ih = Cons.IH [OF lo' hi']
  from ih st have c: "taskIdCounter s \<le> taskIdCounter (run (x # xs) s)"
    "taskIdCounter (run (x # xs) s) \<le> taskIdCounter s + int (length (x # xs))"
    by simp_all
  have i: "\<forall>j\<in>set (issued (x # xs) s).
      taskIdCounter s < j \<and> j \<le> taskIdCounter (run (x # xs) s)"
  proof
    fix j
    assume "j \<in> set (issued (x # xs) s)"
    then consider "j \<in> set (new_ids x s)" | "j \<in> set (issued xs ?s)" by auto
    then show "taskIdCounter s < j \<and> j \<le> taskIdCounter (run (x # xs) s)"
    proof cases
      case 1
      from new_ids_counter [OF 1 lo hi] ih show ?thesis by simp
    next
      case 2
      with ih st show ?thesis by fastforce
    qed
  qed
  have b: "ids_bounded s \<longrightarrow> ids_bounded (run (x # xs) s) \<and>
      (\<forall>j\<in>set (seen (x # xs) s). j \<le> taskIdCounter (run (x # xs) s))"
  proof
    assume bs: "ids_bounded s"
    then have "ids_bounded ?s" by (rule ids_bounded_step [OF _ lo hi])
    with ih have r: "ids_bounded (run xs ?s)"
      and sn: "\<forall>j\<in>set (seen xs ?s). j \<le> taskIdCounter (run xs ?s)"
      by simp_all
    from bs c(1) have "\<forall>j\<in>set (map task_id (tasks s)). j \<le> taskIdCounter (run (x # xs) s)"
      by (fastforce simp: ids_bounded_def list_all_iff)
    with r sn show "ids_bounded (run (x # xs) s) \<and>
        (\<forall>j\<in>set (seen (x # xs) s). j \<le> taskIdCounter (run (x # xs) s))"
      by auto
  qed
  from c i b show ?case by blast
qed

lemma ids_bounded_reload:
  "ids_bounded s \<Longrightarrow> ids_bounded (loadTasks (constructor (Json (serialize s)) full))"
  by (simp add: loadTasks_def loadTasks_try_def constructor_def serialize_def
      counter_or_zero_def roundtrip_tasks ids_bounded_def)

subsection \<open>Texts written by addTask and saveEdit\<close>

lemma addTask_text_checked:
  assumes "t \<in> set (tasks (addTask i d n a))" and "t \<notin> set (tasks a)"
  shows "task_text t \<noteq> [] \<and> length (task_text t) \<le> 100 \<and>
         \<not> list_ex (\<lambda>u. toLowerCase (task_text u) = toLowerCase (task_text t)) (tasks a)"
proof (cases "trim i \<noteq> [] \<and> length (trim i) \<le> 100 \<and>
    \<not> list_ex (\<lambda>u. toLowerCase (task_text u) = toLowerCase (trim i)) (tasks a)")
  case True
  with assms show ?thesis by (auto simp: addTask_accepted)
next
  case False
  then consider "trim i = []" | "trim i \<noteq> []" "length (trim i) > 100"
    | "trim i \<noteq> []" "length (trim i) \<le> 100"
      "list_ex (\<lambda>u. toLowerCase (task_text u) = toLowerCase (trim i)) (tasks a)"
    by fastforce
  then have "tasks (addTask i d n a) = tasks a"
    by cases (simp_all add: addTask_rejected showError_def)
  with assms show ?thesis by simp
qed

lemma saveEdit_text_checked:
  assumes "t \<in> set (tasks (saveEdit k v a))" and "t \<notin> set (tasks a)"
  shows "task_text t \<noteq> [] \<and> length (task_text t) \<le> 100 \<and>
         \<not> list_ex (\<lambda>u. task_id u \<noteq> k \<and>
               toLowerCase (task_text u) = toLowerCase (task_text t)) (tasks a)"
proof (cases v)
  case None
  with assms show ?thesis by (simp add: saveEdit_def)
next
  case (Some w)
  let ?x = "trim w"
  let ?ok = "?x \<noteq> [] \<and> length ?x \<le> 100 \<and>
    \<not> list_ex (\<lambda>u. task_id u \<noteq> k \<and> toLowerCase (task_text u) = toLowerCase ?x) (tasks a)"
  show ?thesis
  proof (cases ?ok)
    case False
    with Some have "tasks (saveEdit k v a) = tasks a"
      by (auto simp: saveEdit_def showError_def Let_def)
    with assms show ?thesis by simp
  next
    case True
    show ?thesis
    proof (cases "find (\<lambda>t. task_id t = k) (tasks a)")
      case None
      with Some True have "tasks (saveEdit k v a) = tasks a"
        by (simp add: saveEdit_def Let_def)
      with assms show ?thesis by simp
    next
      case (Some u)
      with \<open>v = Some w\<close> True
      have "tasks (saveEdit k v a) =
          update_first (\<lambda>t. task_id t = k) (\<lambda>t. t\<lparr>task_text := ?x\<rparr>) (tasks a)"
        by (simp add: saveEdit_def Let_def saveTasks_fields clearError_def)
      with assms set_update_first [of t "\<lambda>t. task_id t = k" "\<lambda>t. t\<lparr>task_text := ?x\<rparr>" "tasks a"]
      obtain y where "t = y\<lparr>task_text := ?x\<rparr>" by auto
      with True show ?thesis by simp
    qed
  qed
qed

section \<open>The claims\<close>

subsection \<open>C1: the counter after loading\<close>

text \<open>
  C1 says that after loading, the counter is the maximum of the stored counter and the
  largest loaded id, so that the next created task never shares an id with a loaded one.
  \<open>loadTasks\<close> assigns \<open>data.taskIdCounter || 0\<close> and never looks at the ids. From
  \<open>stale_item\<close> (stored counter 0, one task with id 1) the application starts with
  counter 0, and the next task it creates gets id 1 again.
\<close>

theorem load_counter_below_loaded_id:
  "storage (constructor stale_item False) = stale_item \<and>
   map task_id (tasks stale_app) = [1] \<and>
   taskIdCounter stale_app = 0 \<and>
   taskIdCounter stale_app \<noteq> max 0 (Max (set (map task_id (tasks stale_app)))) \<and>
   map task_id (tasks collided_app) = [1, 1]"
  by code_simp

text \<open>
  C1 as amended: the counter after loading depends on the stored item alone, never on
  the loaded ids. With nothing stored the store is left as it is. When the item parses to
  an object whose \<open>tasks\<close> property is missing, falsy or an array, the counter is the
  stored counter (0 when there is none) and the tasks are the admitted entries. For every
  other item (not JSON, \<open>null\<close>, not an object, or an object whose \<open>tasks\<close> is a
  truthy value that is not an array) the counter is 0. A task created next with an
  accepted text gets the incremented counter as its id; when the counter is at least
  \<open>-2^53\<close> and below \<open>2^53\<close> this is the counter plus one, and no loaded task has
  that id if no loaded id is above the counter.
\<close>

theorem loadTasks_takes_stored_counter:
  "(storage s = Missing \<longrightarrow> loadTasks s = s) \<and>
   (\<forall>t c es. storage s = Json (DObject t c) \<and> tasks_or_empty t = Inr es \<longrightarrow>
      taskIdCounter (loadTasks s) = counter_or_zero c \<and>
      tasks (loadTasks s) = map task_of_entry (filter valid_entry es)) \<and>
   (storage s = Garbage \<or> storage s = Json DNull \<or> storage s = Json DOther \<or>
    (\<exists>t c e. storage s = Json (DObject t c) \<and> tasks_or_empty t = Inl e) \<longrightarrow>
      taskIdCounter (loadTasks s) = 0) \<and>
   (trim i \<noteq> [] \<and> length (trim i) \<le> 100 \<and>
    \<not> list_ex (\<lambda>t. toLowerCase (task_text t) = toLowerCase (trim i)) (tasks (loadTasks s)) \<longrightarrow>
      (\<exists>t'. tasks (addTask i d n (loadTasks s)) = tasks (loadTasks s) @ [t'] \<and>
            task_id t' = increment (taskIdCounter (loadTasks s)) \<and>
            (- 9007199254740992 \<le> taskIdCounter (loadTasks s) \<and>
             taskIdCounter (loadTasks s) < 9007199254740992 \<longrightarrow>
               task_id t' = taskIdCounter (loadTasks s) + 1 \<and>
               (ids_bounded (loadTasks s) \<longrightarrow>
                  task_id t' \<notin> set (map task_id (tasks (loadTasks s)))))))"
proof (intro conjI allI impI)
  assume "storage s = Missing"
  then show "loadTasks s = s" by (simp add: loadTasks_def loadTasks_try_def)
next
  fix t c es
  assume "storage s = Json (DObject t c) \<and> tasks_or_empty t = Inr es"
  then have l: "loadTasks s = s\<lparr>tasks := map task_of_entry (filter valid_entry es),
                         taskIdCounter := counter_or_zero c\<rparr>"
    by (simp add: loadTasks_array)
  show "taskIdCounter (loadTasks s) = counter_or_zero c" by (simp add: l)
  show "tasks (loadTasks s) = map task_of_entry (filter valid_entry es)" by (simp add: l)
next
  assume "storage s = Garbage \<or> storage s = Json DNull \<or> storage s = Json DOther \<or>
    (\<exists>t c e. storage s = Json (DObject t c) \<and> tasks_or_empty t = Inl e)"
  then show "taskIdCounter (loadTasks s) = 0"
    by (auto simp: loadTasks_def loadTasks_try_def)
next
  let ?l = "loadTasks s"
  assume a: "trim i \<noteq> [] \<and> length (trim i) \<le> 100 \<and>
    \<not> list_ex (\<lambda>t. toLowerCase (task_text t) = toLowerCase (trim i)) (tasks ?l)"
  then have t: "tasks (addTask i d n ?l) =
      tasks ?l @ [\<lparr>task_id = increment (taskIdCounter ?l), task_text = trim i,
         completed = False, createdAt = JStr n, completedAt = JNull,
         deadline = (if d = [] then JNull else JStr d)\<rparr>]"
    by (simp add: addTask_accepted)
  have "- 9007199254740992 \<le> taskIdCounter ?l \<and> taskIdCounter ?l < 9007199254740992 \<longrightarrow>
      increment (taskIdCounter ?l) = taskIdCounter ?l + 1 \<and>
      (ids_bounded ?l \<longrightarrow> increment (taskIdCounter ?l) \<notin> set (map task_id (tasks ?l)))"
  proof (intro impI conjI)
    assume b: "- 9007199254740992 \<le> taskIdCounter ?l \<and> taskIdCounter ?l < 9007199254740992"
    then show e: "increment (taskIdCounter ?l) = taskIdCounter ?l + 1"
      by (simp add: increment_safe)
    assume "ids_bounded ?l"
    then have "taskIdCounter ?l + 1 \<notin> set (map task_id (tasks ?l))"
      by (rule ids_bounded_fresh)
    with e show "increment (taskIdCounter ?l) \<notin> set (map task_id (tasks ?l))" by simp
  qed
  with t show "\<exists>t'. tasks (addTask i d n ?l) = tasks ?l @ [t'] \<and>
            task_id t' = increment (taskIdCounter ?l) \<and>
            (- 9007199254740992 \<le> taskIdCounter ?l \<and> taskIdCounter ?l < 9007199254740992 \<longrightarrow>
               task_id t' = taskIdCounter ?l + 1 \<and>
               (ids_bounded ?l \<longrightarrow> task_id t' \<notin> set (map task_id (tasks ?l))))"
    by auto
qed

theorem loadTasks_takes_stored_counter_witness:
  "storage (constructor Missing False) = Missing \<and>
   loadTasks (constructor Missing False) = constructor Missing False \<and>
   storage (constructor mixed_item False) = Json (DObject (Some (JArr mixed_entries)) (Some 3)) \<and>
   tasks_or_empty (Some (JArr mixed_entries)) = Inr mixed_entries \<and>
   taskIdCounter (loadTasks (constructor mixed_item False)) = counter_or_zero (Some 3) \<and>
   storage (constructor (Json (DObject (Some (JNum 5)) (Some 9))) False) =
     Json (DObject (Some (JNum 5)) (Some 9)) \<and>
   tasks_or_empty (Some (JNum 5)) = Inl TypeError \<and>
   taskIdCounter (loadTasks (constructor (Json (DObject (Some (JNum 5)) (Some 9))) False)) = 0 \<and>
   trim ''Call mum'' \<noteq> [] \<and> length (trim ''Call mum'') \<le> 100 \<and>
   \<not> list_ex (\<lambda>t. toLowerCase (task_text t) = toLowerCase (trim ''Call mum''))
       (tasks (loadTasks (constructor mixed_item False))) \<and>
   - 9007199254740992 \<le> taskIdCounter (loadTasks (constructor mixed_item False)) \<and>
   taskIdCounter (loadTasks (constructor mixed_item False)) < 9007199254740992 \<and>
   ids_bounded (loadTasks (constructor mixed_item False)) \<and>
   (\<exists>t'. tasks (addTask ''Call mum'' [] ''2024-01-05T00:00:00.000Z''
                  (loadTasks (constructor mixed_item False))) =
            tasks (loadTasks (constructor mixed_item False)) @ [t'] \<and>
         task_id t' = taskIdCounter (loadTasks (constructor mixed_item False)) + 1 \<and>
         task_id t' \<notin> set (map task_id (tasks (loadTasks (constructor mixed_item False)))))"
proof -
  let ?e = "constructor Missing False"
  let ?m = "constructor mixed_item False"
  let ?f = "constructor (Json (DObject (Some (JNum 5)) (Some 9))) False"
  have e: "storage ?e = Missing" by (simp add: constructor_def)
  have m1: "storage ?m = Json (DObject (Some (JArr mixed_entries)) (Some 3))"
    by (simp add: constructor_def mixed_item_def)
  have m2: "tasks_or_empty (Some (JArr mixed_entries)) = Inr mixed_entries" by simp
  have f1: "storage ?f = Json (DObject (Some (JNum 5)) (Some 9))"
    by (simp add: constructor_def)
  have f2: "tasks_or_empty (Some (JNum 5)) = Inl TypeError" by simp
  have v: "trim ''Call mum'' \<noteq> [] \<and> length (trim ''Call mum'') \<le> 100 \<and>
      \<not> list_ex (\<lambda>t. toLowerCase (task_text t) = toLowerCase (trim ''Call mum''))
          (tasks (loadTasks ?m))"
    by code_simp
  have b: "- 9007199254740992 \<le> taskIdCounter (loadTasks ?m) \<and>
      taskIdCounter (loadTasks ?m) < 9007199254740992 \<and> ids_bounded (loadTasks ?m)"
    by code_simp
  from loadTasks_takes_stored_counter [where s = ?e] e
  have 1: "loadTasks ?e = ?e" by blast
  from loadTasks_takes_stored_counter [where s = ?m] m1 m2
  have 2: "taskIdCounter (loadTasks ?m) = counter_or_zero (Some 3)" by blast
  from loadTasks_takes_stored_counter [where s = ?f] f1 f2
  have 3: "taskIdCounter (loadTasks ?f) = 0" by blast
  from loadTasks_takes_stored_counter
    [where s = ?m and i = "''Call mum''" and d = "[]" and n = "''2024-01-05T00:00:00.000Z''"] v b
  have 4: "\<exists>t'. tasks (addTask ''Call mum'' [] ''2024-01-05T00:00:00.000Z'' (loadTasks ?m)) =
            tasks (loadTasks ?m) @ [t'] \<and>
         task_id t' = taskIdCounter (loadTasks ?m) + 1 \<and>
         task_id t' \<notin> set (map task_id (tasks (loadTasks ?m)))"
    by blast
  from e m1 m2 f1 f2 v b 1 2 3 4 show ?thesis by blast
qed

subsection \<open>C2: setting the filter\<close>

text \<open>
  C2 says that \<open>setFilter\<close> rejects a value outside all, active and completed and
  leaves the filter as it was. \<open>setFilter\<close> assigns its argument without looking at it:
  after \<open>setFilter('bogus')\<close> on a new store the filter is \<open>bogus\<close>, not \<open>all\<close>,
  and no error is shown.
\<close>

theorem setFilter_accepts_unknown:
  "currentFilter (constructor Missing False) = ''all'' \<and>
   currentFilter (setFilter ''bogus'' (constructor Missing False)) = ''bogus'' \<and>
   inputError (setFilter ''bogus'' (constructor Missing False)) = []"
  by (simp add: setFilter_def constructor_def)

text \<open>
  C2 as amended: \<open>setFilter\<close> makes any value the current filter and changes nothing
  else, so for all, active and completed the filter becomes that value; a value other
  than active and completed makes the filtered view the whole list, as all does.
\<close>

theorem setFilter_stores_any_value:
  "setFilter f s = s\<lparr>currentFilter := f\<rparr> \<and>
   (f \<noteq> ''active'' \<and> f \<noteq> ''completed'' \<longrightarrow> getFilteredTasks (setFilter f s) = tasks s)"
  by (simp add: setFilter_def getFilteredTasks_def)

theorem setFilter_stores_any_value_witness:
  "''bogus'' \<noteq> ''active'' \<and> ''bogus'' \<noteq> ''completed'' \<and>
   setFilter ''bogus'' pair_app = pair_app\<lparr>currentFilter := ''bogus''\<rparr> \<and>
   getFilteredTasks (setFilter ''bogus'' pair_app) = tasks pair_app"
proof -
  have h: "''bogus'' \<noteq> ''active'' \<and> ''bogus'' \<noteq> ''completed''" by simp
  from setFilter_stores_any_value [of "''bogus''" pair_app] h show ?thesis by blast
qed

subsection \<open>C3: deleting a task\<close>

text \<open>
  C3 says that \<open>delete(id)\<close> removes exactly the task with that id, fails when there is
  none, and so fails the second time when called twice. \<open>deleteTask\<close> removes the first
  task \<open>findIndex\<close> finds. In \<open>collided_app\<close> two tasks have the id 1 (the loaded one
  and the one created after it): the first call, once its timer has run, has removed one
  of them, and the second call finds the other and removes it too. The same happens when
  the tasks are not on screen and both removals are immediate.
\<close>

theorem second_delete_removes_twin:
  "map task_id (tasks collided_app) = [1, 1] \<and>
   map task_id (tasks (fireTimer (deleteTask 1 True collided_app))) = [1] \<and>
   findIndex (\<lambda>t. task_id t = 1) (tasks (fireTimer (deleteTask 1 True collided_app))) = Some 0 \<and>
   tasks (fireTimer (deleteTask 1 True (fireTimer (deleteTask 1 True collided_app)))) = [] \<and>
   tasks (deleteTask 1 False (deleteTask 1 False collided_app)) = []"
  by code_simp

text \<open>
  C3 as amended. When no task has the id, \<open>deleteTask\<close> returns the store as it is:
  nothing is removed or scheduled, and there is no message and no exception. Otherwise
  the task it acts on is the first one with the id, at the index \<open>k\<close> that \<open>findIndex\<close>
  returns. When the task has no element in the page, the call removes it at once and
  keeps the tasks before and after it in their order. When it has an element and no
  removal is pending, the store after the call and the run of its timer as the very next
  step is the store after the immediate removal. (What the store is when other operations
  run between the call and its timer is not part of this statement.) When the ids in the
  store are distinct, the removal, done in either of these two ways, removes every task
  with the id, and a call with the same id directly after it changes nothing.
\<close>

theorem deleteTask_removes_first_match:
  "(findIndex (\<lambda>t. task_id t = taskId) (tasks s) = None \<longrightarrow> deleteTask taskId e s = s) \<and>
   (\<forall>k. findIndex (\<lambda>t. task_id t = taskId) (tasks s) = Some k \<longrightarrow>
      k < length (tasks s) \<and> task_id (tasks s ! k) = taskId \<and>
      \<not> list_ex (\<lambda>t. task_id t = taskId) (take k (tasks s)) \<and>
      tasks (deleteTask taskId False s) = take k (tasks s) @ drop (Suc k) (tasks s)) \<and>
   (timers s = [] \<longrightarrow> fireTimer (deleteTask taskId True s) = deleteTask taskId False s) \<and>
   (distinct (map task_id (tasks s)) \<longrightarrow>
      tasks (deleteTask taskId False s) = filter (\<lambda>t. task_id t \<noteq> taskId) (tasks s) \<and>
      deleteTask taskId e (deleteTask taskId False s) = deleteTask taskId False s \<and>
      (timers s = [] \<longrightarrow>
         tasks (fireTimer (deleteTask taskId True s)) =
           filter (\<lambda>t. task_id t \<noteq> taskId) (tasks s) \<and>
         deleteTask taskId e (fireTimer (deleteTask taskId True s)) =
           fireTimer (deleteTask taskId True s)))"
proof -
  let ?P = "\<lambda>t. task_id t = taskId"
  have none: "findIndex ?P (tasks s) = None \<longrightarrow> deleteTask taskId e s = s"
    by (simp add: deleteTask_def)
  have some: "\<forall>k. findIndex ?P (tasks s) = Some k \<longrightarrow>
      k < length (tasks s) \<and> task_id (tasks s ! k) = taskId \<and>
      \<not> list_ex ?P (take k (tasks s)) \<and>
      tasks (deleteTask taskId False s) = take k (tasks s) @ drop (Suc k) (tasks s)"
  proof (intro allI impI)
    fix k
    assume k: "findIndex ?P (tasks s) = Some k"
    from k have "tasks (deleteTask taskId False s) = take k (tasks s) @ drop (Suc k) (tasks s)"
      by (simp add: deleteTask_def removeAt_def saveTasks_fields splice1_def)
    with findIndex_Some [OF k]
    show "k < length (tasks s) \<and> task_id (tasks s ! k) = taskId \<and>
      \<not> list_ex ?P (take k (tasks s)) \<and>
      tasks (deleteTask taskId False s) = take k (tasks s) @ drop (Suc k) (tasks s)"
      by simp
  qed
  have timer: "fireTimer (deleteTask taskId True s) = deleteTask taskId False s"
    if idle: "timers s = []"
  proof (cases "findIndex ?P (tasks s)")
    case None
    with idle show ?thesis by (simp add: deleteTask_def fireTimer_def)
  next
    case (Some k)
    from idle have "s\<lparr>timers := []\<rparr> = s\<lparr>timers := timers s\<rparr>" by simp
    then have eq: "s\<lparr>timers := []\<rparr> = s" by simp
    from Some idle have "deleteTask taskId True s = s\<lparr>timers := [k]\<rparr>"
      by (simp add: deleteTask_def)
    then have "fireTimer (deleteTask taskId True s) = removeAt k (s\<lparr>timers := []\<rparr>)"
      by (simp add: fireTimer_def)
    also have "\<dots> = removeAt k s" by (simp only: eq)
    also from Some have "\<dots> = deleteTask taskId False s" by (simp add: deleteTask_def)
    finally show ?thesis .
  qed
  have dist: "tasks (deleteTask taskId False s) = filter (\<lambda>t. task_id t \<noteq> taskId) (tasks s) \<and>
      deleteTask taskId e (deleteTask taskId False s) = deleteTask taskId False s"
    if d: "distinct (map task_id (tasks s))"
  proof -
    have del: "tasks (deleteTask taskId False s) = filter (\<lambda>t. task_id t \<noteq> taskId) (tasks s)"
    proof (cases "findIndex ?P (tasks s)")
      case None
      then have "\<forall>t\<in>set (tasks s). task_id t \<noteq> taskId"
        by (simp add: findIndex_None_iff list_ex_iff)
      then have "filter (\<lambda>t. task_id t \<noteq> taskId) (tasks s) = tasks s"
        by (simp add: filter_id_conv)
      with None show ?thesis by (simp add: deleteTask_def)
    next
      case (Some k)
      from splice1_filter [OF Some d] Some show ?thesis
        by (simp add: deleteTask_def removeAt_def saveTasks_fields)
    qed
    have "findIndex ?P (tasks (deleteTask taskId False s)) = None"
      unfolding del by (rule findIndex_filter_out)
    then have "deleteTask taskId e (deleteTask taskId False s) = deleteTask taskId False s"
      by (simp add: deleteTask_def [of taskId e "deleteTask taskId False s"])
    with del show ?thesis by simp
  qed
  from none some timer dist show ?thesis by simp
qed

theorem deleteTask_removes_first_match_witness:
  "findIndex (\<lambda>t. task_id t = 7) (tasks pair_app) = None \<and>
   deleteTask 7 True pair_app = pair_app \<and>
   findIndex (\<lambda>t. task_id t = 1) (tasks pair_app) = Some 0 \<and>
   tasks (deleteTask 1 False pair_app) = take 0 (tasks pair_app) @ drop (Suc 0) (tasks pair_app) \<and>
   timers pair_app = [] \<and>
   fireTimer (deleteTask 1 True pair_app) = deleteTask 1 False pair_app \<and>
   distinct (map task_id (tasks pair_app)) \<and>
   tasks (deleteTask 1 False pair_app) = filter (\<lambda>t. task_id t \<noteq> 1) (tasks pair_app) \<and>
   deleteTask 1 True (deleteTask 1 False pair_app) = deleteTask 1 False pair_app \<and>
   tasks (fireTimer (deleteTask 1 True pair_app)) = filter (\<lambda>t. task_id t \<noteq> 1) (tasks pair_app) \<and>
   deleteTask 1 True (fireTimer (deleteTask 1 True pair_app)) = fireTimer (deleteTask 1 True pair_app) \<and>
   map task_id (tasks (fireTimer (deleteTask 1 True pair_app))) = [2]"
proof -
  have h1: "findIndex (\<lambda>t. task_id t = 7) (tasks pair_app) = None" by code_simp
  have h2: "findIndex (\<lambda>t. task_id t = 1) (tasks pair_app) = Some 0" by code_simp
  have h3: "distinct (map task_id (tasks pair_app))" by code_simp
  have h4: "timers pair_app = []" by code_simp
  have v: "map task_id (tasks (fireTimer (deleteTask 1 True pair_app))) = [2]" by code_simp
  from deleteTask_removes_first_match [where taskId = 7 and s = pair_app and e = True] h1
  have 1: "deleteTask 7 True pair_app = pair_app" by blast
  from deleteTask_removes_first_match [where taskId = 1 and s = pair_app and e = True] h2 h4
  have 2: "tasks (deleteTask 1 False pair_app) =
        take 0 (tasks pair_app) @ drop (Suc 0) (tasks pair_app) \<and>
      fireTimer (deleteTask 1 True pair_app) = deleteTask 1 False pair_app"
    by blast
  from deleteTask_removes_first_match [where taskId = 1 and s = pair_app and e = True] h3 h4
  have 3: "tasks (deleteTask 1 False pair_app) = filter (\<lambda>t. task_id t \<noteq> 1) (tasks pair_app) \<and>
      deleteTask 1 True (deleteTask 1 False pair_app) = deleteTask 1 False pair_app \<and>
      tasks (fireTimer (deleteTask 1 True pair_app)) =
        filter (\<lambda>t. task_id t \<noteq> 1) (tasks pair_app) \<and>
      deleteTask 1 True (fireTimer (deleteTask 1 True pair_app)) =
        fireTimer (deleteTask 1 True pair_app)"
    by blast
  from h1 h2 h3 h4 v 1 2 3 show ?thesis by blast
qed

subsection \<open>C4: saving and loading again\<close>

text \<open>
  C4: when \<open>saveTasks\<close> can write (the storage is not full), a store that loads what
  it wrote gets the same tasks in the same order and the same counter. Every task of the
  model has a numeric id and a string text, so no entry of the written array is
  malformed. The store \<open>a\<close> that loads is any store that finds the written item, such
  as the one the constructor builds in the next session.
\<close>

theorem load_after_save_roundtrip:
  assumes "\<not> storageFull s" and "storage a = storage (saveTasks s)"
  shows "tasks (loadTasks a) = tasks s \<and> taskIdCounter (loadTasks a) = taskIdCounter s"
proof -
  from assms have "storage a = Json (serialize s)" by (simp add: saveTasks_def)
  then show ?thesis
    by (simp add: loadTasks_def loadTasks_try_def serialize_def counter_or_zero_def
        roundtrip_tasks)
qed

theorem load_after_save_roundtrip_witness:
  "\<not> storageFull pair_app \<and>
   storage (constructor (storage (saveTasks pair_app)) False) = storage (saveTasks pair_app) \<and>
   tasks (loadTasks (constructor (storage (saveTasks pair_app)) False)) = tasks pair_app \<and>
   taskIdCounter (loadTasks (constructor (storage (saveTasks pair_app)) False)) =
     taskIdCounter pair_app \<and>
   map task_id (tasks (loadTasks (constructor (storage (saveTasks pair_app)) False))) = [1, 2]"
proof -
  let ?a = "constructor (storage (saveTasks pair_app)) False"
  have h1: "\<not> storageFull pair_app" by code_simp
  have h2: "storage ?a = storage (saveTasks pair_app)" by (simp add: constructor_def)
  have v: "map task_id (tasks (loadTasks ?a)) = [1, 2]" by code_simp
  from load_after_save_roundtrip [OF h1 h2] h1 h2 v show ?thesis by blast
qed

subsection \<open>C5: creating a task\<close>

text \<open>
  C5 says that a text that is accepted gives a new task whose id differs from every id
  in the store. The id is the counter plus one, whatever ids the store holds: in
  \<open>stale_app\<close> the text \<open>b\<close> is accepted and the new task gets the id 1 of the task
  that is already there.
\<close>

theorem addTask_reuses_loaded_id:
  "trim ''b'' \<noteq> [] \<and> length (trim ''b'') \<le> 100 \<and>
   \<not> list_ex (\<lambda>t. toLowerCase (task_text t) = toLowerCase (trim ''b'')) (tasks stale_app) \<and>
   task_id (last (tasks (addTask ''b'' [] ''2024-01-01T00:00:00.000Z'' stale_app)))
     \<in> set (map task_id (tasks stale_app))"
  by code_simp

text \<open>
  C5 as amended. With \<open>txt\<close> the trimmed input: an empty \<open>txt\<close> shows the message for
  an empty text, a \<open>txt\<close> longer than 100 the message for a long one, and a \<open>txt\<close>
  equal to the text of a task in the store, letter case ignored, the message for a
  duplicate; in these three cases nothing else of the store changes. Otherwise
  \<open>addTask\<close> appends one task with the incremented counter as id, the text \<open>txt\<close>,
  \<open>completed = false\<close>, \<open>completedAt = null\<close> and the deadline (\<open>null\<close> when the
  deadline field is empty), and the counter becomes that id. When the counter is at
  least \<open>-2^53\<close> and below \<open>2^53\<close>, the id is the counter plus one, and it is new in
  the store when no task id is above the counter (\<open>ids_bounded\<close>).
\<close>

theorem addTask_appends_or_rejects:
  "(trim i = [] \<longrightarrow> addTask i d n s = showError ''Please enter a task description.'' s) \<and>
   (trim i \<noteq> [] \<and> length (trim i) > 100 \<longrightarrow>
      addTask i d n s = showError ''Task description must be 100 characters or less.'' s) \<and>
   (trim i \<noteq> [] \<and> length (trim i) \<le> 100 \<and>
    list_ex (\<lambda>t. toLowerCase (task_text t) = toLowerCase (trim i)) (tasks s) \<longrightarrow>
      addTask i d n s = showError ''This task already exists.'' s) \<and>
   (trim i \<noteq> [] \<and> length (trim i) \<le> 100 \<and>
    \<not> list_ex (\<lambda>t. toLowerCase (task_text t) = toLowerCase (trim i)) (tasks s) \<longrightarrow>
      tasks (addTask i d n s) =
        tasks s @ [\<lparr>task_id = increment (taskIdCounter s), task_text = trim i,
                    completed = False, createdAt = JStr n, completedAt = JNull,
                    deadline = (if d = [] then JNull else JStr d)\<rparr>] \<and>
      taskIdCounter (addTask i d n s) = increment (taskIdCounter s) \<and>
      (- 9007199254740992 \<le> taskIdCounter s \<and> taskIdCounter s < 9007199254740992 \<longrightarrow>
         increment (taskIdCounter s) = taskIdCounter s + 1 \<and>
         (ids_bounded s \<longrightarrow> increment (taskIdCounter s) \<notin> set (map task_id (tasks s)))))"
proof (intro conjI impI)
  assume b: "- 9007199254740992 \<le> taskIdCounter s \<and> taskIdCounter s < 9007199254740992"
  then show e: "increment (taskIdCounter s) = taskIdCounter s + 1"
    by (simp add: increment_safe)
  assume "ids_bounded s"
  then have "taskIdCounter s + 1 \<notin> set (map task_id (tasks s))"
    by (rule ids_bounded_fresh)
  with e show "increment (taskIdCounter s) \<notin> set (map task_id (tasks s))" by simp
qed (simp_all add: addTask_rejected addTask_accepted)

theorem addTask_appends_or_rejects_witness:
  "trim ''   '' = [] \<and>
   addTask ''   '' [] ''2024-01-05T00:00:00.000Z'' pair_app =
     showError ''Please enter a task description.'' pair_app \<and>
   trim (replicate 101 CHR ''x'') \<noteq> [] \<and> length (trim (replicate 101 CHR ''x'')) > 100 \<and>
   addTask (replicate 101 CHR ''x'') [] ''2024-01-05T00:00:00.000Z'' pair_app =
     showError ''Task description must be 100 characters or less.'' pair_app \<and>
   trim '' A '' \<noteq> [] \<and> length (trim '' A '') \<le> 100 \<and>
   list_ex (\<lambda>t. toLowerCase (task_text t) = toLowerCase (trim '' A '')) (tasks pair_app) \<and>
   addTask '' A '' [] ''2024-01-05T00:00:00.000Z'' pair_app =
     showError ''This task already exists.'' pair_app \<and>
   trim '' c '' \<noteq> [] \<and> length (trim '' c '') \<le> 100 \<and>
   \<not> list_ex (\<lambda>t. toLowerCase (task_text t) = toLowerCase (trim '' c '')) (tasks pair_app) \<and>
   - 9007199254740992 \<le> taskIdCounter pair_app \<and> taskIdCounter pair_app < 9007199254740992 \<and>
   ids_bounded pair_app \<and>
   tasks (addTask '' c '' ''2024-02-01T10:00'' ''2024-01-05T00:00:00.000Z'' pair_app) =
     tasks pair_app @
       [\<lparr>task_id = increment (taskIdCounter pair_app), task_text = trim '' c '',
         completed = False, createdAt = JStr ''2024-01-05T00:00:00.000Z'', completedAt = JNull,
         deadline = (if ''2024-02-01T10:00'' = [] then JNull else JStr ''2024-02-01T10:00'')\<rparr>] \<and>
   taskIdCounter (addTask '' c '' ''2024-02-01T10:00'' ''2024-01-05T00:00:00.000Z'' pair_app) =
     increment (taskIdCounter pair_app) \<and>
   increment (taskIdCounter pair_app) = taskIdCounter pair_app + 1 \<and>
   increment (taskIdCounter pair_app) \<notin> set (map task_id (tasks pair_app)) \<and>
   map task_id (tasks (addTask '' c '' ''2024-02-01T10:00'' ''2024-01-05T00:00:00.000Z''
     pair_app)) = [1, 2, 3]"
proof -
  let ?n = "''2024-01-05T00:00:00.000Z''"
  have e: "trim ''   '' = []" by code_simp
  have l: "trim (replicate 101 CHR ''x'') \<noteq> [] \<and> length (trim (replicate 101 CHR ''x'')) > 100"
    by code_simp
  have u: "trim '' A '' \<noteq> [] \<and> length (trim '' A '') \<le> 100 \<and>
      list_ex (\<lambda>t. toLowerCase (task_text t) = toLowerCase (trim '' A '')) (tasks pair_app)"
    by code_simp
  have a: "trim '' c '' \<noteq> [] \<and> length (trim '' c '') \<le> 100 \<and>
      \<not> list_ex (\<lambda>t. toLowerCase (task_text t) = toLowerCase (trim '' c '')) (tasks pair_app)"
    by code_simp
  have b: "- 9007199254740992 \<le> taskIdCounter pair_app \<and>
      taskIdCounter pair_app < 9007199254740992 \<and> ids_bounded pair_app"
    by code_simp
  have v: "map task_id (tasks (addTask '' c '' ''2024-02-01T10:00'' ?n pair_app)) = [1, 2, 3]"
    by code_simp
  from addTask_appends_or_rejects [of "''   ''" "[]" ?n pair_app] e
  have 1: "addTask ''   '' [] ?n pair_app =
      showError ''Please enter a task description.'' pair_app"
    by blast
  from addTask_appends_or_rejects [of "replicate 101 CHR ''x''" "[]" ?n pair_app] l
  have 2: "addTask (replicate 101 CHR ''x'') [] ?n pair_app =
      showError ''Task description must be 100 characters or less.'' pair_app"
    by blast
  from addTask_appends_or_rejects [of "'' A ''" "[]" ?n pair_app] u
  have 3: "addTask '' A '' [] ?n pair_app = showError ''This task already exists.'' pair_app"
    by blast
  from addTask_appends_or_rejects [of "'' c ''" "''2024-02-01T10:00''" ?n pair_app] a b
  have 4: "tasks (addTask '' c '' ''2024-02-01T10:00'' ?n pair_app) =
     tasks pair_app @
       [\<lparr>task_id = increment (taskIdCounter pair_app), task_text = trim '' c '',
         completed = False, createdAt = JStr ?n, completedAt = JNull,
         deadline = (if ''2024-02-01T10:00'' = [] then JNull else JStr ''2024-02-01T10:00'')\<rparr>] \<and>
     taskIdCounter (addTask '' c '' ''2024-02-01T10:00'' ?n pair_app) =
       increment (taskIdCounter pair_app) \<and>
     increment (taskIdCounter pair_app) = taskIdCounter pair_app + 1 \<and>
     increment (taskIdCounter pair_app) \<notin> set (map task_id (tasks pair_app))"
    by blast
  from e l u a b v 1 2 3 4 show ?thesis by blast
qed

subsection \<open>C6: the filtered view\<close>

text \<open>
  C6: \<open>getFilteredTasks\<close> returns the tasks with \<open>completed = false\<close> under the filter
  active, the tasks with \<open>completed = true\<close> under the filter completed, and the whole
  list under the filter all; \<open>filter\<close> keeps the order of the list. The function
  returns a list and no store: it changes nothing.
\<close>

theorem getFilteredTasks_by_filter:
  "(currentFilter s = ''active'' \<longrightarrow>
      getFilteredTasks s = filter (\<lambda>t. completed t = False) (tasks s)) \<and>
   (currentFilter s = ''completed'' \<longrightarrow>
      getFilteredTasks s = filter (\<lambda>t. completed t = True) (tasks s)) \<and>
   (currentFilter s = ''all'' \<longrightarrow> getFilteredTasks s = tasks s)"
  by (simp add: getFilteredTasks_def)

theorem getFilteredTasks_by_filter_witness:
  "currentFilter (setFilter ''active'' pair_app) = ''active'' \<and>
   getFilteredTasks (setFilter ''active'' pair_app) =
     filter (\<lambda>t. completed t = False) (tasks (setFilter ''active'' pair_app)) \<and>
   currentFilter (setFilter ''completed'' pair_app) = ''completed'' \<and>
   getFilteredTasks (setFilter ''completed'' pair_app) =
     filter (\<lambda>t. completed t = True) (tasks (setFilter ''completed'' pair_app)) \<and>
   currentFilter pair_app = ''all'' \<and>
   getFilteredTasks pair_app = tasks pair_app \<and>
   map task_id (getFilteredTasks (setFilter ''active'' pair_app)) = [2] \<and>
   map task_id (getFilteredTasks (setFilter ''completed'' pair_app)) = [1] \<and>
   map task_id (getFilteredTasks pair_app) = [1, 2]"
proof -
  have a: "currentFilter (setFilter ''active'' pair_app) = ''active''"
    by (simp add: setFilter_def)
  have c: "currentFilter (setFilter ''completed'' pair_app) = ''completed''"
    by (simp add: setFilter_def)
  have l: "currentFilter pair_app = ''all''" by code_simp
  have v: "map task_id (getFilteredTasks (setFilter ''active'' pair_app)) = [2] \<and>
      map task_id (getFilteredTasks (setFilter ''completed'' pair_app)) = [1] \<and>
      map task_id (getFilteredTasks pair_app) = [1, 2]"
    by code_simp
  from getFilteredTasks_by_filter [of "setFilter ''active'' pair_app"] a
  have 1: "getFilteredTasks (setFilter ''active'' pair_app) =
      filter (\<lambda>t. completed t = False) (tasks (setFilter ''active'' pair_app))"
    by blast
  from getFilteredTasks_by_filter [of "setFilter ''completed'' pair_app"] c
  have 2: "getFilteredTasks (setFilter ''completed'' pair_app) =
      filter (\<lambda>t. completed t = True) (tasks (setFilter ''completed'' pair_app))"
    by blast
  from getFilteredTasks_by_filter [of pair_app] l
  have 3: "getFilteredTasks pair_app = tasks pair_app" by blast
  from a c l v 1 2 3 show ?thesis by blast
qed

subsection \<open>C7: loading never fails\<close>

text \<open>
  C7: \<open>loadTasks\<close> returns a store for every stored item. Whatever exception the body
  of its \<open>try\<close> block raises, the \<open>catch\<close> leaves an empty task list and the counter 0;
  an item that is not JSON is such a case. When the item parses to an object with an
  array of entries, the loaded tasks are the entries that have a string \<open>text\<close> and a
  numeric \<open>id\<close>, in the order of the array, and the others are left out.
\<close>

theorem loadTasks_catches_everything:
  "(\<forall>e. loadTasks_try s = Inl e \<longrightarrow>
      tasks (loadTasks s) = [] \<and> taskIdCounter (loadTasks s) = 0) \<and>
   (storage s = Garbage \<longrightarrow> tasks (loadTasks s) = [] \<and> taskIdCounter (loadTasks s) = 0) \<and>
   (\<forall>es c. storage s = Json (DObject (Some (JArr es)) c) \<longrightarrow>
      tasks (loadTasks s) =
        map task_of_entry
          (filter (\<lambda>e. typeof_string (get_prop e ''text'') \<and>
                       typeof_number (get_prop e ''id'')) es))"
proof (intro conjI allI impI)
  fix es c
  assume "storage s = Json (DObject (Some (JArr es)) c)"
  then have "tasks (loadTasks s) = map task_of_entry (filter valid_entry es)"
    by (simp add: loadTasks_array [of s "Some (JArr es)" c es])
  also have "filter valid_entry es =
      filter (\<lambda>e. typeof_string (get_prop e ''text'') \<and> typeof_number (get_prop e ''id'')) es"
    by (rule filter_cong) (simp_all add: valid_entry_types)
  finally show "tasks (loadTasks s) =
        map task_of_entry
          (filter (\<lambda>e. typeof_string (get_prop e ''text'') \<and>
                       typeof_number (get_prop e ''id'')) es)" .
qed (simp_all add: loadTasks_def loadTasks_try_def)

theorem loadTasks_catches_everything_witness:
  "loadTasks_try (pair_app\<lparr>storage := Garbage\<rparr>) = Inl SyntaxError \<and>
   storage (pair_app\<lparr>storage := Garbage\<rparr>) = Garbage \<and>
   tasks (loadTasks (pair_app\<lparr>storage := Garbage\<rparr>)) = [] \<and>
   taskIdCounter (loadTasks (pair_app\<lparr>storage := Garbage\<rparr>)) = 0 \<and>
   loadTasks_try (constructor (Json (DObject (Some (JNum 5)) (Some 9))) False) = Inl TypeError \<and>
   tasks (loadTasks (constructor (Json (DObject (Some (JNum 5)) (Some 9))) False)) = [] \<and>
   taskIdCounter (loadTasks (constructor (Json (DObject (Some (JNum 5)) (Some 9))) False)) = 0 \<and>
   storage (constructor mixed_item False) = Json (DObject (Some (JArr mixed_entries)) (Some 3)) \<and>
   tasks (loadTasks (constructor mixed_item False)) =
     map task_of_entry
       (filter (\<lambda>e. typeof_string (get_prop e ''text'') \<and>
                    typeof_number (get_prop e ''id'')) mixed_entries) \<and>
   map task_id (tasks (loadTasks (constructor mixed_item False))) = [1, 2, 3]"
proof -
  let ?g = "pair_app\<lparr>storage := Garbage\<rparr>"
  let ?n = "constructor (Json (DObject (Some (JNum 5)) (Some 9))) False"
  let ?m = "constructor mixed_item False"
  have g: "loadTasks_try ?g = Inl SyntaxError" by (simp add: loadTasks_try_def)
  have g': "storage ?g = Garbage" by simp
  have n: "loadTasks_try ?n = Inl TypeError" by (simp add: loadTasks_try_def constructor_def)
  have m: "storage ?m = Json (DObject (Some (JArr mixed_entries)) (Some 3))"
    by (simp add: constructor_def mixed_item_def)
  have v: "map task_id (tasks (loadTasks ?m)) = [1, 2, 3]" by code_simp
  from loadTasks_catches_everything [of ?g] g'
  have 1: "tasks (loadTasks ?g) = [] \<and> taskIdCounter (loadTasks ?g) = 0" by blast
  from loadTasks_catches_everything [of ?n] n
  have 2: "tasks (loadTasks ?n) = [] \<and> taskIdCounter (loadTasks ?n) = 0" by blast
  from loadTasks_catches_everything [of ?m] m
  have 3: "tasks (loadTasks ?m) =
     map task_of_entry
       (filter (\<lambda>e. typeof_string (get_prop e ''text'') \<and>
                    typeof_number (get_prop e ''id'')) mixed_entries)"
    by blast
  from g g' n m v 1 2 3 show ?thesis by blast
qed

subsection \<open>C8: toggling twice\<close>

text \<open>
  C8 says that two toggles give the task its old \<open>completed\<close> value and leave
  \<open>completedAt\<close> absent. The second half fails for a task that was completed: the
  first toggle clears \<open>completedAt\<close>, and the second one sets it to the time of that
  toggle. \<open>done_app\<close> holds one completed task.
\<close>

theorem double_toggle_sets_completedAt:
  "map completed (tasks done_app) = [True] \<and>
   map completed (tasks (toggleTask 1 ''2024-01-04T00:00:00.000Z''
      (toggleTask 1 ''2024-01-03T00:00:00.000Z'' done_app))) = [True] \<and>
   map completedAt (tasks (toggleTask 1 ''2024-01-04T00:00:00.000Z''
      (toggleTask 1 ''2024-01-03T00:00:00.000Z'' done_app))) =
     [JStr ''2024-01-04T00:00:00.000Z'']"
  by code_simp

text \<open>
  C8 as amended: when a task has the id, two calls of \<open>toggleTask\<close> with that id (at
  the times \<open>n1\<close> and \<open>n2\<close>) change only \<open>completedAt\<close> of the first task with the
  id, which becomes \<open>null\<close> when the task was not completed and \<open>n2\<close> when it was.
  \<open>completed\<close> of every task is what it was before.
\<close>

theorem toggleTask_twice:
  assumes "find (\<lambda>t. task_id t = taskId) (tasks s) = Some t"
  shows "tasks (toggleTask taskId n2 (toggleTask taskId n1 s)) =
           update_first (\<lambda>t. task_id t = taskId)
             (\<lambda>t. t\<lparr>completedAt := (if completed t then JStr n2 else JNull)\<rparr>) (tasks s) \<and>
         map completed (tasks (toggleTask taskId n2 (toggleTask taskId n1 s))) =
           map completed (tasks s) \<and>
         find (\<lambda>t. task_id t = taskId) (tasks (toggleTask taskId n2 (toggleTask taskId n1 s))) =
           Some (t\<lparr>completedAt := (if completed t then JStr n2 else JNull)\<rparr>)"
proof -
  let ?P = "\<lambda>t. task_id t = taskId"
  let ?f = "\<lambda>t. t\<lparr>completedAt := (if completed t then JStr n2 else JNull)\<rparr>"
  have id: "\<And>x. ?P (toggle n1 x) = ?P x" by (simp add: toggle_def)
  have one: "tasks (toggleTask taskId n1 s) = update_first ?P (toggle n1) (tasks s)"
    using assms by (simp add: toggleTask_def saveTasks_fields)
  have "find ?P (tasks (toggleTask taskId n1 s)) = Some (toggle n1 t)"
    unfolding one using assms by (simp add: find_update_first [of ?P, OF id])
  then have "tasks (toggleTask taskId n2 (toggleTask taskId n1 s)) =
      update_first ?P (toggle n2) (update_first ?P (toggle n1) (tasks s))"
    by (simp add: toggleTask_def [of taskId n2] saveTasks_fields one)
  also have "\<dots> = update_first ?P (\<lambda>x. toggle n2 (toggle n1 x)) (tasks s)"
    by (rule update_first_twice [of ?P, OF id])
  finally have two: "tasks (toggleTask taskId n2 (toggleTask taskId n1 s)) =
      update_first ?P ?f (tasks s)"
    by (simp add: toggle_toggle)
  have "map completed (update_first ?P ?f (tasks s)) = map completed (tasks s)"
    by (rule map_update_first) simp
  moreover have "find ?P (update_first ?P ?f (tasks s)) = map_option ?f (find ?P (tasks s))"
    by (rule find_update_first) simp
  ultimately show ?thesis using two assms by simp
qed

theorem toggleTask_twice_witness:
  "find (\<lambda>t. task_id t = 2) (tasks pair_app) =
     Some \<lparr>task_id = 2, task_text = ''b'', completed = False,
           createdAt = JStr ''2024-01-03T00:00:00.000Z'', completedAt = JNull,
           deadline = JNull\<rparr> \<and>
   map completed (tasks (toggleTask 2 ''2024-01-05T00:00:00.000Z''
      (toggleTask 2 ''2024-01-04T00:00:00.000Z'' pair_app))) = map completed (tasks pair_app) \<and>
   find (\<lambda>t. task_id t = 2) (tasks (toggleTask 2 ''2024-01-05T00:00:00.000Z''
      (toggleTask 2 ''2024-01-04T00:00:00.000Z'' pair_app))) =
     Some \<lparr>task_id = 2, task_text = ''b'', completed = False,
           createdAt = JStr ''2024-01-03T00:00:00.000Z'', completedAt = JNull,
           deadline = JNull\<rparr>"
proof -
  have h: "find (\<lambda>t. task_id t = 2) (tasks pair_app) =
     Some \<lparr>task_id = 2, task_text = ''b'', completed = False,
           createdAt = JStr ''2024-01-03T00:00:00.000Z'', completedAt = JNull,
           deadline = JNull\<rparr>"
    by code_simp
  note w = toggleTask_twice [OF h, of "''2024-01-05T00:00:00.000Z''" "''2024-01-04T00:00:00.000Z''"]
  from w [THEN conjunct2, THEN conjunct1]
  have 1: "map completed (tasks (toggleTask 2 ''2024-01-05T00:00:00.000Z''
      (toggleTask 2 ''2024-01-04T00:00:00.000Z'' pair_app))) = map completed (tasks pair_app)" .
  from w [THEN conjunct2, THEN conjunct2]
  have "find (\<lambda>t. task_id t = 2) (tasks (toggleTask 2 ''2024-01-05T00:00:00.000Z''
      (toggleTask 2 ''2024-01-04T00:00:00.000Z'' pair_app))) =
     Some (\<lparr>task_id = 2, task_text = ''b'', completed = False,
           createdAt = JStr ''2024-01-03T00:00:00.000Z'', completedAt = JNull,
           deadline = JNull\<rparr>\<lparr>completedAt := JNull\<rparr>)"
    by simp
  then have 2: "find (\<lambda>t. task_id t = 2) (tasks (toggleTask 2 ''2024-01-05T00:00:00.000Z''
      (toggleTask 2 ''2024-01-04T00:00:00.000Z'' pair_app))) =
     Some \<lparr>task_id = 2, task_text = ''b'', completed = False,
           createdAt = JStr ''2024-01-03T00:00:00.000Z'', completedAt = JNull,
           deadline = JNull\<rparr>"
    by simp
  from h 1 2 show ?thesis by blast
qed

subsection \<open>C9: clearing everything keeps the counter\<close>

text \<open>
  C9 says that a task created after \<open>clearAll\<close> always gets an id above every id the
  store gave out before. The id is the incremented counter, whatever ids the store has
  held. In \<open>stale_app\<close> the store holds a task with id 1 and the counter is 0: after
  \<open>clearAll\<close> the next task gets id 1 again. In \<open>big_app\<close> the counter is \<open>2^53\<close>
  and the store has given the id \<open>2^53\<close> to the task it created; the increment leaves
  \<open>2^53\<close> as it is, so the task created after \<open>clearAll\<close> gets \<open>2^53\<close> as well.
\<close>

theorem create_after_clearAll_repeats_id:
  "map task_id (tasks stale_app) = [1] \<and>
   map task_id (tasks (addTask ''task'' [] ''2024-01-05T00:00:00.000Z'' (clearAll stale_app))) = [1] \<and>
   issued [AddTask ''a'' [] ''2024-01-01T00:00:00.000Z''] (loadTasks (constructor big_item False)) =
     [9007199254740992] \<and>
   run [AddTask ''a'' [] ''2024-01-01T00:00:00.000Z''] (loadTasks (constructor big_item False)) =
     big_app \<and>
   map task_id (tasks (addTask ''task'' [] ''2024-01-05T00:00:00.000Z'' (clearAll big_app))) =
     [9007199254740992]"
  by code_simp

text \<open>
  C9 as amended: \<open>clearAll\<close> empties the task list and the edit marker of any store
  \<open>a\<close> and leaves its counter as it is. Take a store \<open>s\<close> in which no task id is above
  the counter and the counter is at least \<open>-2^53\<close>, and a sequence of operations short
  enough that the counter plus its length stays below \<open>2^53\<close>. A task created right
  after that sequence and \<open>clearAll\<close>, with a text that is not empty and not too long
  (the list is empty, so no text is a duplicate), gets the counter plus one as its id,
  and this id is above every id a task of the store had at the start or after any step of
  the sequence, and so above every id given out during the sequence.
\<close>

theorem clearAll_keeps_counter:
  "tasks (clearAll a) = [] \<and> editingTaskId (clearAll a) = None \<and>
   taskIdCounter (clearAll a) = taskIdCounter a \<and>
   (trim i \<noteq> [] \<and> length (trim i) \<le> 100 \<and> ids_bounded s \<and>
    - 9007199254740992 \<le> taskIdCounter s \<and>
    taskIdCounter s + int (length ops) < 9007199254740992 \<longrightarrow>
      (\<exists>t. tasks (addTask i d n (clearAll (run ops s))) = [t] \<and>
           task_id t = taskIdCounter (run ops s) + 1 \<and>
           (\<forall>j\<in>set (seen ops s). j < task_id t) \<and>
           (\<forall>j\<in>set (issued ops s). j < task_id t)))"
proof (intro conjI impI)
  let ?r = "run ops s"
  let ?c = "clearAll ?r"
  assume h: "trim i \<noteq> [] \<and> length (trim i) \<le> 100 \<and> ids_bounded s \<and>
    - 9007199254740992 \<le> taskIdCounter s \<and>
    taskIdCounter s + int (length ops) < 9007199254740992"
  then have lo: "- 9007199254740992 \<le> taskIdCounter s"
    and hi: "taskIdCounter s + int (length ops) < 9007199254740992"
    by simp_all
  note rc = run_counter [OF lo hi]
  from rc have rlo: "- 9007199254740992 \<le> taskIdCounter ?r" using lo by linarith
  from rc have rhi: "taskIdCounter ?r < 9007199254740992" using hi by linarith
  have "\<not> list_ex (\<lambda>t. toLowerCase (task_text t) = toLowerCase (trim i)) (tasks ?c)"
    by (simp add: other_fields)
  with h have "tasks (addTask i d n ?c) =
      tasks ?c @ [\<lparr>task_id = increment (taskIdCounter ?c), task_text = trim i,
        completed = False, createdAt = JStr n, completedAt = JNull,
        deadline = (if d = [] then JNull else JStr d)\<rparr>]"
    by (simp add: addTask_accepted)
  moreover have "increment (taskIdCounter ?c) = taskIdCounter ?r + 1"
    using increment_safe [OF rlo rhi] by (simp add: other_fields)
  ultimately have t: "tasks (addTask i d n ?c) =
      [\<lparr>task_id = taskIdCounter ?r + 1, task_text = trim i,
        completed = False, createdAt = JStr n, completedAt = JNull,
        deadline = (if d = [] then JNull else JStr d)\<rparr>]"
    by (simp add: other_fields)
  from rc h have "\<forall>j\<in>set (seen ops s). j < taskIdCounter ?r + 1" by fastforce
  moreover from rc have "\<forall>j\<in>set (issued ops s). j < taskIdCounter ?r + 1" by fastforce
  ultimately show "\<exists>t. tasks (addTask i d n ?c) = [t] \<and>
           task_id t = taskIdCounter ?r + 1 \<and>
           (\<forall>j\<in>set (seen ops s). j < task_id t) \<and>
           (\<forall>j\<in>set (issued ops s). j < task_id t)"
    using t by simp
qed (simp_all add: other_fields)

theorem clearAll_keeps_counter_witness:
  "map task_id (tasks (run busy_session (constructor Missing False))) = [2, 3] \<and>
   editingTaskId (run busy_session (constructor Missing False)) = Some 3 \<and>
   tasks (clearAll (run busy_session (constructor Missing False))) = [] \<and>
   editingTaskId (clearAll (run busy_session (constructor Missing False))) = None \<and>
   taskIdCounter (clearAll (run busy_session (constructor Missing False))) =
     taskIdCounter (run busy_session (constructor Missing False)) \<and>
   trim ''task'' \<noteq> [] \<and> length (trim ''task'') \<le> 100 \<and>
   ids_bounded (constructor Missing False) \<and>
   - 9007199254740992 \<le> taskIdCounter (constructor Missing False) \<and>
   taskIdCounter (constructor Missing False) + int (length busy_session) < 9007199254740992 \<and>
   set (seen busy_session (constructor Missing False)) = {1, 2, 3} \<and>
   issued busy_session (constructor Missing False) = [1, 2, 3] \<and>
   (\<exists>t. tasks (addTask ''task'' [] ''2024-01-05T00:00:00.000Z''
                 (clearAll (run busy_session (constructor Missing False)))) = [t] \<and>
        task_id t = taskIdCounter (run busy_session (constructor Missing False)) + 1 \<and>
        (\<forall>j\<in>set (seen busy_session (constructor Missing False)). j < task_id t) \<and>
        (\<forall>j\<in>set (issued busy_session (constructor Missing False)). j < task_id t)) \<and>
   map task_id (tasks (addTask ''task'' [] ''2024-01-05T00:00:00.000Z''
     (clearAll (run busy_session (constructor Missing False))))) = [4]"
proof -
  let ?s = "constructor Missing False"
  let ?r = "run busy_session ?s"
  have v1: "map task_id (tasks ?r) = [2, 3] \<and> editingTaskId ?r = Some 3" by code_simp
  have h: "trim ''task'' \<noteq> [] \<and> length (trim ''task'') \<le> 100 \<and> ids_bounded ?s \<and>
      - 9007199254740992 \<le> taskIdCounter ?s \<and>
      taskIdCounter ?s + int (length busy_session) < 9007199254740992"
    by code_simp
  have v2: "set (seen busy_session ?s) = {1, 2, 3} \<and> issued busy_session ?s = [1, 2, 3]"
    by code_simp
  have v3: "map task_id (tasks (addTask ''task'' [] ''2024-01-05T00:00:00.000Z''
      (clearAll ?r))) = [4]"
    by code_simp
  note w = clearAll_keeps_counter [where a = ?r and s = ?s and ops = busy_session
      and i = "''task''" and d = "[]" and n = "''2024-01-05T00:00:00.000Z''"]
  from w have 1: "tasks (clearAll ?r) = [] \<and> editingTaskId (clearAll ?r) = None \<and>
      taskIdCounter (clearAll ?r) = taskIdCounter ?r"
    by blast
  from w h have 2: "\<exists>t. tasks (addTask ''task'' [] ''2024-01-05T00:00:00.000Z''
                 (clearAll ?r)) = [t] \<and>
        task_id t = taskIdCounter ?r + 1 \<and>
        (\<forall>j\<in>set (seen busy_session ?s). j < task_id t) \<and>
        (\<forall>j\<in>set (issued busy_session ?s). j < task_id t)"
    by blast
  from v1 h v2 v3 1 2 show ?thesis by blast
qed

subsection \<open>C10: what the load filter checks\<close>

text \<open>
  C10: the filter in \<open>loadTasks\<close> keeps exactly the entries whose \<open>text\<close> is a string
  and whose \<open>id\<close> is a number, in their order, and checks nothing else: each such
  entry is in the loaded store with its id and its text, whatever the text is. A task
  that \<open>addTask\<close> or \<open>saveEdit\<close> puts or changes in a store \<open>a\<close> always has a text that
  is not empty, has at most 100 characters and differs, letter case ignored, from the
  texts of the (other) tasks of \<open>a\<close>. Loading \<open>mixed_item\<close> gives a store with an
  empty text and with two texts that differ only in case.
\<close>

theorem load_filter_checks_types_only:
  assumes "storage s = Json (DObject (Some (JArr es)) c)"
  shows "tasks (loadTasks s) =
           map task_of_entry
             (filter (\<lambda>e. \<exists>x n. get_prop e ''text'' = Some (JStr x) \<and>
                                get_prop e ''id'' = Some (JNum n)) es) \<and>
         (\<forall>e\<in>set es. \<forall>x n.
            get_prop e ''text'' = Some (JStr x) \<and> get_prop e ''id'' = Some (JNum n) \<longrightarrow>
            (\<exists>t\<in>set (tasks (loadTasks s)). task_id t = n \<and> task_text t = x)) \<and>
         (\<forall>t\<in>set (tasks (addTask i d n a)). t \<in> set (tasks a) \<or>
            task_text t \<noteq> [] \<and> length (task_text t) \<le> 100 \<and>
            \<not> list_ex (\<lambda>u. toLowerCase (task_text u) = toLowerCase (task_text t)) (tasks a)) \<and>
         (\<forall>t\<in>set (tasks (saveEdit k v a)). t \<in> set (tasks a) \<or>
            task_text t \<noteq> [] \<and> length (task_text t) \<le> 100 \<and>
            \<not> list_ex (\<lambda>u. task_id u \<noteq> k \<and>
                  toLowerCase (task_text u) = toLowerCase (task_text t)) (tasks a))"
proof (intro conjI ballI allI impI)
  have l: "tasks (loadTasks s) = map task_of_entry (filter valid_entry es)"
    using assms by (simp add: loadTasks_array [of s "Some (JArr es)" c es])
  have "filter valid_entry es =
      filter (\<lambda>e. \<exists>x n. get_prop e ''text'' = Some (JStr x) \<and>
                        get_prop e ''id'' = Some (JNum n)) es"
    by (rule filter_cong) (simp_all add: valid_entry_iff)
  with l show "tasks (loadTasks s) =
           map task_of_entry
             (filter (\<lambda>e. \<exists>x n. get_prop e ''text'' = Some (JStr x) \<and>
                                get_prop e ''id'' = Some (JNum n)) es)"
    by simp
  {
    fix e x m
    assume e: "e \<in> set es"
      and p: "get_prop e ''text'' = Some (JStr x) \<and> get_prop e ''id'' = Some (JNum m)"
    then have "valid_entry e" by (auto simp: valid_entry_iff)
    with e have "task_of_entry e \<in> set (tasks (loadTasks s))" by (simp add: l)
    moreover from p have "task_id (task_of_entry e) = m \<and> task_text (task_of_entry e) = x"
      by (simp add: task_of_entry_def)
    ultimately show "\<exists>t\<in>set (tasks (loadTasks s)). task_id t = m \<and> task_text t = x"
      by blast
  }
  {
    fix t
    assume "t \<in> set (tasks (addTask i d n a))"
    then show "t \<in> set (tasks a) \<or>
        task_text t \<noteq> [] \<and> length (task_text t) \<le> 100 \<and>
        \<not> list_ex (\<lambda>u. toLowerCase (task_text u) = toLowerCase (task_text t)) (tasks a)"
      using addTask_text_checked [of t i d n a] by blast
  }
  {
    fix t
    assume "t \<in> set (tasks (saveEdit k v a))"
    then show "t \<in> set (tasks a) \<or>
        task_text t \<noteq> [] \<and> length (task_text t) \<le> 100 \<and>
        \<not> list_ex (\<lambda>u. task_id u \<noteq> k \<and>
            toLowerCase (task_text u) = toLowerCase (task_text t)) (tasks a)"
      using saveEdit_text_checked [of t k v a] by blast
  }
qed

theorem load_filter_checks_types_only_witness:
  "storage (constructor mixed_item False) = Json (DObject (Some (JArr mixed_entries)) (Some 3)) \<and>
   tasks (loadTasks (constructor mixed_item False)) =
     map task_of_entry
       (filter (\<lambda>e. \<exists>x n. get_prop e ''text'' = Some (JStr x) \<and>
                          get_prop e ''id'' = Some (JNum n)) mixed_entries) \<and>
   JObj [(''id'', JNum 3), (''text'', JStr [])] \<in> set mixed_entries \<and>
   (\<exists>t\<in>set (tasks (loadTasks (constructor mixed_item False))). task_id t = 3 \<and> task_text t = []) \<and>
   map task_text (tasks (loadTasks (constructor mixed_item False))) = [''Buy milk'', ''buy milk'', []]"
proof -
  let ?m = "constructor mixed_item False"
  let ?e = "JObj [(''id'', JNum 3), (''text'', JStr [])]"
  have h: "storage ?m = Json (DObject (Some (JArr mixed_entries)) (Some 3))"
    by (simp add: constructor_def mixed_item_def)
  have e: "?e \<in> set mixed_entries" by (simp add: mixed_entries_def)
  have p: "get_prop ?e ''text'' = Some (JStr []) \<and> get_prop ?e ''id'' = Some (JNum 3)"
    by simp
  have v: "map task_text (tasks (loadTasks ?m)) = [''Buy milk'', ''buy milk'', []]"
    by code_simp
  note w = load_filter_checks_types_only [OF h]
  from w have 1: "tasks (loadTasks ?m) =
     map task_of_entry
       (filter (\<lambda>e. \<exists>x n. get_prop e ''text'' = Some (JStr x) \<and>
                          get_prop e ''id'' = Some (JNum n)) mixed_entries)"
    by (rule conjunct1)
  from w e p have 2: "\<exists>t\<in>set (tasks (loadTasks ?m)). task_id t = 3 \<and> task_text t = []"
    by blast
  from h e v 1 2 show ?thesis by blast
qed


end
